theory Spec2Isabelle
  imports Main "HOL-Library.Sublist"
begin

unbundle bit_operations_syntax

section \<open>The check-for-tag lint rule (src/src/checkForTagRule.ts)\<close>

text \<open>
  The rule walks the syntax tree of one source file, and for every identifier that is a
  usage (not a declaration site) it asks the type checker for the documentation tags of
  what the identifier denotes; when one of the configured tag names is among them, a
  failure is added at the identifier.

  The source works on TypeScript's syntax tree, whose nodes carry a pointer to their
  parent, on the type checker of the TypeScript compiler, and on some helpers of the
  \<^verbatim>\<open>tsutils\<close> package. The tree is a datatype here; a node of the walked file is
  referred to by its location, the list of child indexes leading to it from the root,
  so that \<^verbatim>\<open>node.parent\<close> is the location without its last index and two
  references denote the same node (\<^verbatim>\<open>===\<close>) when the locations are equal. The type
  checker and the helpers of \<^verbatim>\<open>tsutils\<close> are parameters (records of functions).

  Reading a property of \<^verbatim>\<open>undefined\<close> throws a \<^verbatim>\<open>TypeError\<close> in JavaScript; every
  function that could do so returns a value of \<open>error + 'a\<close>.
\<close>

subsection \<open>Errors\<close>

datatype error = TypeError

definition bindE :: "error + 'a \<Rightarrow> ('a \<Rightarrow> error + 'b) \<Rightarrow> error + 'b" where
  "bindE m f = (case m of Inl e \<Rightarrow> Inl e | Inr v \<Rightarrow> f v)"

definition deref :: "'a option \<Rightarrow> error + 'a" where
  "deref x = (case x of None \<Rightarrow> Inl TypeError | Some v \<Rightarrow> Inr v)"

subsection \<open>Syntax trees\<close>

text \<open>The kinds of node that the source tests for; every other kind is \<open>OtherKind\<close>.\<close>

datatype SyntaxKind =
    Identifier
  | SourceFile
  | ImportDeclaration
  | ImportEqualsDeclaration
  | ExportDeclaration
  | ExportAssignment
  | ClassDeclaration
  | ClassExpression
  | InterfaceDeclaration
  | TypeParameter
  | FunctionExpression
  | FunctionDeclaration
  | LabeledStatement
  | JsxAttribute
  | MethodDeclaration
  | MethodSignature
  | PropertySignature
  | TypeAliasDeclaration
  | GetAccessor
  | SetAccessor
  | EnumDeclaration
  | ModuleDeclaration
  | VariableDeclaration
  | Parameter
  | PropertyDeclaration
  | EnumMember
  | PropertyAssignment
  | ShorthandPropertyAssignment
  | BindingElement
  | PropertyAccessExpression
  | TaggedTemplateExpression
  | CallExpression
  | NewExpression
  | VariableDeclarationList
  | OtherKind nat

text \<open>
  A node of the walked file: its kind, its text \<open>node_text\<close> (of an identifier), the
  children in the order \<^verbatim>\<open>ts.forEachChild\<close> visits them, and the slots \<^verbatim>\<open>name\<close>,
  \<^verbatim>\<open>propertyName\<close> and \<^verbatim>\<open>expression\<close>, each the index of the child that fills it
  (\<open>None\<close> when the property is \<^verbatim>\<open>undefined\<close>).
\<close>

datatype Node = Node
  (kind: SyntaxKind)
  (node_text: string)
  (name: "nat option")
  (propertyName: "nat option")
  (expression: "nat option")
  (children: "Node list")

type_synonym loc = "nat list"

fun node_at :: "Node \<Rightarrow> loc \<Rightarrow> Node option" where
  "node_at n [] = Some n"
| "node_at n (i # p) =
     (if i < length (children n) then node_at (children n ! i) p else None)"

text \<open>\<^verbatim>\<open>node.parent\<close>: \<^verbatim>\<open>undefined\<close> at the root.\<close>

definition parent :: "loc \<Rightarrow> loc option" where
  "parent p = (if p = [] then None else Some (butlast p))"

text \<open>\<^verbatim>\<open>parent.name === node\<close>, for \<open>slot\<close> the slot of the node at \<open>parent node\<close>.\<close>

definition fills :: "loc \<Rightarrow> nat option \<Rightarrow> bool" where
  "fills node slot = (node \<noteq> [] \<and> slot = Some (last node))"

subsection \<open>Declarations, documentation, symbols and signatures\<close>

text \<open>
  A declaration of a symbol is a node of some file of the program, of which the source
  reads the kind and the parent.
\<close>

datatype Decl = Decl (decl_kind: SyntaxKind) (decl_parent: "Decl option") (decl_id: nat)

record JSDocTagInfo =
  tag_name :: string
  tag_text :: "string option"

record JSDocTag =
  tagName_text :: string
  comment :: "string option"

record JSDoc =
  tags :: "JSDocTag list option"

text \<open>
  \<open>sig_getJsDocTags\<close> and \<open>sym_getJsDocTags\<close> are \<open>None\<close> when the method
  \<^verbatim>\<open>getJsDocTags\<close> is \<^verbatim>\<open>undefined\<close> (typescript before 2.3.0), and the list it returns
  otherwise.
\<close>

record Signature =
  sig_getJsDocTags :: "JSDocTagInfo list option"
  sig_declaration :: "Decl option"

record Symbol =
  flags :: nat
  declarations :: "Decl list option"
  sym_getJsDocTags :: "JSDocTagInfo list option"

record Type =
  getProperty :: "string \<Rightarrow> Symbol option"

record TypeChecker =
  getResolvedSignature :: "loc \<Rightarrow> Signature option"
  getTypeAtLocation :: "loc \<Rightarrow> Type"
  getPropertySymbolOfDestructuringAssignment :: "loc \<Rightarrow> Symbol option"
  getSymbolAtLocation :: "loc \<Rightarrow> Symbol option"
  getAliasedSymbol :: "Symbol \<Rightarrow> Symbol option"

text \<open>The functions of \<^verbatim>\<open>tsutils\<close> that look at more than the kind of a node.\<close>

record TsUtils =
  isReassignmentTarget :: "loc \<Rightarrow> bool"
  getDeclarationOfBindingElement :: "Decl \<Rightarrow> Decl"
  getJsDoc :: "Decl \<Rightarrow> JSDoc list"

text \<open>\<^verbatim>\<open>ts.SymbolFlags.Alias\<close> and \<^verbatim>\<open>isSymbolFlagSet\<close> of \<^verbatim>\<open>tsutils\<close>.\<close>

definition Alias :: nat where
  "Alias = 2097152"

definition isSymbolFlagSet :: "Symbol \<Rightarrow> nat \<Rightarrow> bool" where
  "isSymbolFlagSet symbol flag = ((flags symbol AND flag) \<noteq> 0)"

subsection \<open>Options\<close>

record Options =
  opt_tags :: "string list"

text \<open>
  An element of the rule arguments: the declared type is \<^verbatim>\<open>string | string[]\<close>, and the
  documented configuration has \<^verbatim>\<open>true\<close> at index 0.
\<close>

datatype arg = Bool bool | Str string | Arr "string list"

fun truthy :: "arg \<Rightarrow> bool" where
  "truthy (Bool b) = b"
| "truthy (Str s) = (s \<noteq> [])"
| "truthy (Arr xs) = True"

text \<open>\<^verbatim>\<open>for (const arg of a)\<close>: a string yields its characters, a boolean is not iterable.\<close>

fun iterate :: "arg \<Rightarrow> error + string list" where
  "iterate (Bool b) = Inl TypeError"
| "iterate (Str s) = Inr (map (\<lambda>c. [c]) s)"
| "iterate (Arr xs) = Inr xs"

definition parseOptions :: "arg list option \<Rightarrow> error + Options" where
  "parseOptions args =
     (case args of
        None \<Rightarrow> Inr \<lparr>opt_tags = []\<rparr>
      | Some as \<Rightarrow>
          if 1 < length as \<and> truthy (as ! 1)
          then bindE (iterate (as ! 1)) (\<lambda>parsedOptions. Inr \<lparr>opt_tags = parsedOptions\<rparr>)
          else Inr \<lparr>opt_tags = []\<rparr>)"

subsection \<open>The failure message\<close>

text \<open>
  \<^verbatim>\<open>String.prototype.trim\<close> removes white space and line terminators from both ends. A
  \<open>char\<close> is a code unit below 256 here; of these, JavaScript trims the seven below.
\<close>

definition isWhiteSpace :: "char \<Rightarrow> bool" where
  "isWhiteSpace c = (of_char c \<in> {9, 10, 11, 12, 13, 32, 160 :: nat})"

definition trim :: "string \<Rightarrow> string" where
  "trim s = rev (dropWhile isWhiteSpace (rev (dropWhile isWhiteSpace s)))"

definition FAILURE_STRING :: "string \<Rightarrow> string \<Rightarrow> string" where
  "FAILURE_STRING nm message =
     ''Found disallowed tag at '' @ nm @ (if message = [] then ''.'' else '': '' @ trim message)"

subsection \<open>Declaration sites\<close>

text \<open>
  \<^verbatim>\<open>isDeclaration\<close> (lines 94-134). The identifier is given by its location; its parent
  is read from the file, and the object literal around a property assignment is the
  parent of the parent.
\<close>

definition isDeclaration :: "TsUtils \<Rightarrow> Node \<Rightarrow> loc \<Rightarrow> error + bool" where
  "isDeclaration u sf identifier =
     bindE (deref (parent identifier)) (\<lambda>parentLoc.
     bindE (deref (node_at sf parentLoc)) (\<lambda>parentNode.
       case kind parentNode of
         ClassDeclaration \<Rightarrow> Inr True
       | ClassExpression \<Rightarrow> Inr True
       | InterfaceDeclaration \<Rightarrow> Inr True
       | TypeParameter \<Rightarrow> Inr True
       | FunctionExpression \<Rightarrow> Inr True
       | FunctionDeclaration \<Rightarrow> Inr True
       | LabeledStatement \<Rightarrow> Inr True
       | JsxAttribute \<Rightarrow> Inr True
       | MethodDeclaration \<Rightarrow> Inr True
       | MethodSignature \<Rightarrow> Inr True
       | PropertySignature \<Rightarrow> Inr True
       | TypeAliasDeclaration \<Rightarrow> Inr True
       | GetAccessor \<Rightarrow> Inr True
       | SetAccessor \<Rightarrow> Inr True
       | EnumDeclaration \<Rightarrow> Inr True
       | ModuleDeclaration \<Rightarrow> Inr True
       | VariableDeclaration \<Rightarrow> Inr (fills identifier (name parentNode))
       | Parameter \<Rightarrow> Inr (fills identifier (name parentNode))
       | PropertyDeclaration \<Rightarrow> Inr (fills identifier (name parentNode))
       | EnumMember \<Rightarrow> Inr (fills identifier (name parentNode))
       | ImportEqualsDeclaration \<Rightarrow> Inr (fills identifier (name parentNode))
       | PropertyAssignment \<Rightarrow>
           if fills identifier (name parentNode)
           then bindE (deref (parent parentLoc)) (\<lambda>objectLiteral.
                  Inr (\<not> isReassignmentTarget u objectLiteral))
           else Inr False
       | BindingElement \<Rightarrow>
           Inr (fills identifier (name parentNode) \<and> propertyName parentNode \<noteq> None)
       | _ \<Rightarrow> Inr False))"

subsection \<open>The tag resolver\<close>

text \<open>
  \<^verbatim>\<open>getCallExpresion\<close> (lines 136-146): after the step over a property access, \<open>node\<close>
  is the property access and \<open>parentLoc\<close> its parent.
\<close>

definition getCallExpresion :: "Node \<Rightarrow> loc \<Rightarrow> error + loc option" where
  "getCallExpresion sf node0 =
     bindE (deref (parent node0)) (\<lambda>parent0.
     bindE (deref (node_at sf parent0)) (\<lambda>parentNode0.
     bindE (if kind parentNode0 = PropertyAccessExpression \<and> fills node0 (name parentNode0)
            then bindE (deref (parent parent0)) (\<lambda>parent1. Inr (parent0, parent1))
            else Inr (node0, parent0)) (\<lambda>(node, parentLoc).
     bindE (deref (node_at sf parentLoc)) (\<lambda>parentNode.
       Inr (if kind parentNode = TaggedTemplateExpression \<or>
               ((kind parentNode = CallExpression \<or> kind parentNode = NewExpression) \<and>
                fills node (expression parentNode))
            then Some parentLoc else None)))))"

fun findUnwantedTagsTag :: "Options \<Rightarrow> JSDocTagInfo list \<Rightarrow> string option" where
  "findUnwantedTagsTag opts [] = None"
| "findUnwantedTagsTag opts (tag # rest) =
     (if tag_name tag \<in> set (opt_tags opts)
      then Some (case tag_text tag of None \<Rightarrow> [] | Some t \<Rightarrow> t)
      else findUnwantedTagsTag opts rest)"

text \<open>
  \<^verbatim>\<open>getUnwantedTagsFromDeclaration\<close> (lines 239-251) iterates over the comments of a
  declaration and, inside, over the tags of one comment.
\<close>

fun getUnwantedTagsFromDeclaration_tags :: "Options \<Rightarrow> JSDocTag list \<Rightarrow> string option" where
  "getUnwantedTagsFromDeclaration_tags opts [] = None"
| "getUnwantedTagsFromDeclaration_tags opts (tag # rest) =
     (if tagName_text tag \<in> set (opt_tags opts)
      then Some (case comment tag of None \<Rightarrow> [] | Some c \<Rightarrow> c)
      else getUnwantedTagsFromDeclaration_tags opts rest)"

fun getUnwantedTagsFromDeclaration_comments :: "Options \<Rightarrow> JSDoc list \<Rightarrow> string option" where
  "getUnwantedTagsFromDeclaration_comments opts [] = None"
| "getUnwantedTagsFromDeclaration_comments opts (c # rest) =
     (case tags c of
        None \<Rightarrow> getUnwantedTagsFromDeclaration_comments opts rest
      | Some ts \<Rightarrow>
          (case getUnwantedTagsFromDeclaration_tags opts ts of
             Some r \<Rightarrow> Some r
           | None \<Rightarrow> getUnwantedTagsFromDeclaration_comments opts rest))"

definition getUnwantedTagsFromDeclaration :: "TsUtils \<Rightarrow> Options \<Rightarrow> Decl \<Rightarrow> string option" where
  "getUnwantedTagsFromDeclaration u opts declaration =
     getUnwantedTagsFromDeclaration_comments opts (getJsDoc u declaration)"

text \<open>
  The node whose documentation is read for a declaration. When a parent is missing, the
  next call of \<^verbatim>\<open>tsutils\<close> reads the kind of \<^verbatim>\<open>undefined\<close> and throws.
\<close>

definition documentedNode :: "TsUtils \<Rightarrow> Decl \<Rightarrow> error + Decl" where
  "documentedNode u declaration =
     (let d1 = (if decl_kind declaration = BindingElement
                then getDeclarationOfBindingElement u declaration else declaration)
      in bindE (if decl_kind d1 = VariableDeclaration then deref (decl_parent d1) else Inr d1)
           (\<lambda>d2. if decl_kind d2 = VariableDeclarationList then deref (decl_parent d2) else Inr d2))"

fun getUnwantedTagsFromDeclarations_loop ::
  "TsUtils \<Rightarrow> Options \<Rightarrow> Decl list \<Rightarrow> error + string option" where
  "getUnwantedTagsFromDeclarations_loop u opts [] = Inr None"
| "getUnwantedTagsFromDeclarations_loop u opts (declaration # rest) =
     bindE (documentedNode u declaration) (\<lambda>d.
       case getUnwantedTagsFromDeclaration u opts d of
         Some r \<Rightarrow> Inr (Some r)
       | None \<Rightarrow> getUnwantedTagsFromDeclarations_loop u opts rest)"

definition getUnwantedTagsFromDeclarations ::
  "TsUtils \<Rightarrow> Options \<Rightarrow> Decl list option \<Rightarrow> error + string option" where
  "getUnwantedTagsFromDeclarations u opts ds =
     (case ds of
        None \<Rightarrow> Inr None
      | Some l \<Rightarrow> getUnwantedTagsFromDeclarations_loop u opts l)"

definition getSymbolUnwantedTags :: "TsUtils \<Rightarrow> Options \<Rightarrow> Symbol \<Rightarrow> error + string option" where
  "getSymbolUnwantedTags u opts symbol =
     (case sym_getJsDocTags symbol of
        Some ts \<Rightarrow> Inr (findUnwantedTagsTag opts ts)
      | None \<Rightarrow> getUnwantedTagsFromDeclarations u opts (declarations symbol))"

definition getSignatureUnwantedTags ::
  "TsUtils \<Rightarrow> Options \<Rightarrow> Signature option \<Rightarrow> string option" where
  "getSignatureUnwantedTags u opts signature =
     (case signature of
        None \<Rightarrow> None
      | Some sg \<Rightarrow>
          (case sig_getJsDocTags sg of
             Some ts \<Rightarrow> findUnwantedTagsTag opts ts
           | None \<Rightarrow>
               (case sig_declaration sg of
                  None \<Rightarrow> None
                | Some d \<Rightarrow> getUnwantedTagsFromDeclaration u opts d)))"

definition isFunctionOrMethod :: "Decl list option \<Rightarrow> bool" where
  "isFunctionOrMethod ds =
     (case ds of
        None \<Rightarrow> False
      | Some [] \<Rightarrow> False
      | Some (d # _) \<Rightarrow>
          (case decl_kind d of
             MethodDeclaration \<Rightarrow> True
           | FunctionDeclaration \<Rightarrow> True
           | FunctionExpression \<Rightarrow> True
           | MethodSignature \<Rightarrow> True
           | _ \<Rightarrow> False))"

text \<open>
  \<^verbatim>\<open>getUnwantedTags\<close> (lines 148-183) in three parts: \<open>symbolOf\<close> is the choice of the
  symbol (lines 156-169), \<open>unalias\<close> the step over an alias (lines 171-173). A call of the
  type checker with \<^verbatim>\<open>undefined\<close> for a node counts as throwing.
\<close>

definition symbolOf :: "TsUtils \<Rightarrow> TypeChecker \<Rightarrow> Node \<Rightarrow> loc \<Rightarrow> error + Symbol option" where
  "symbolOf u tc sf node =
     bindE (deref (parent node)) (\<lambda>parentLoc.
     bindE (deref (node_at sf parentLoc)) (\<lambda>parentNode.
       if kind parentNode = BindingElement
       then bindE (deref (parent parentLoc)) (\<lambda>pattern.
            bindE (deref (node_at sf node)) (\<lambda>identifier.
              Inr (getProperty (getTypeAtLocation tc pattern) (node_text identifier))))
       else if (kind parentNode = PropertyAssignment \<and> fills node (name parentNode)) \<or>
               (kind parentNode = ShorthandPropertyAssignment \<and> fills node (name parentNode) \<and>
                isReassignmentTarget u node)
       then Inr (getPropertySymbolOfDestructuringAssignment tc node)
       else Inr (getSymbolAtLocation tc node)))"

definition unalias :: "TypeChecker \<Rightarrow> Symbol option \<Rightarrow> Symbol option" where
  "unalias tc symbol =
     (case symbol of
        None \<Rightarrow> None
      | Some s \<Rightarrow> if isSymbolFlagSet s Alias then getAliasedSymbol tc s else Some s)"

definition getUnwantedTags ::
  "TsUtils \<Rightarrow> TypeChecker \<Rightarrow> Options \<Rightarrow> Node \<Rightarrow> loc \<Rightarrow> error + string option" where
  "getUnwantedTags u tc opts sf node =
     bindE (getCallExpresion sf node) (\<lambda>callExpression.
       case (case callExpression of
               None \<Rightarrow> None
             | Some c \<Rightarrow> getSignatureUnwantedTags u opts (getResolvedSignature tc c)) of
         Some result \<Rightarrow> Inr (Some result)
       | None \<Rightarrow>
           bindE (symbolOf u tc sf node) (\<lambda>symbol0.
             case unalias tc symbol0 of
               None \<Rightarrow> Inr None
             | Some symbol \<Rightarrow>
                 if callExpression \<noteq> None \<and> isFunctionOrMethod (declarations symbol)
                 then Inr None
                 else getSymbolUnwantedTags u opts symbol))"

text \<open>
  The symbol path (lines 156-182) on its own; \<open>called\<close> tells whether the identifier is a
  call target.
\<close>

definition symbolPath ::
  "TsUtils \<Rightarrow> TypeChecker \<Rightarrow> Options \<Rightarrow> Node \<Rightarrow> loc \<Rightarrow> bool \<Rightarrow> error + string option" where
  "symbolPath u tc opts sf node called =
     bindE (symbolOf u tc sf node) (\<lambda>symbol0.
       case unalias tc symbol0 of
         None \<Rightarrow> Inr None
       | Some symbol \<Rightarrow>
           if called \<and> isFunctionOrMethod (declarations symbol)
           then Inr None
           else getSymbolUnwantedTags u opts symbol)"

subsection \<open>The walk\<close>

text \<open>
  What the walk does, in order: \<open>Resolve p\<close> records a call of \<open>getUnwantedTags\<close> that
  returned, for the identifier at \<open>p\<close>; \<open>Failure p m\<close> is
  \<^verbatim>\<open>ctx.addFailureAtNode\<close> for the node at \<open>p\<close> with the message \<open>m\<close>.
\<close>

datatype event = Resolve loc | Failure loc string

definition skipped :: "SyntaxKind \<Rightarrow> bool" where
  "skipped k =
     (case k of
        ImportDeclaration \<Rightarrow> True
      | ImportEqualsDeclaration \<Rightarrow> True
      | ExportDeclaration \<Rightarrow> True
      | ExportAssignment \<Rightarrow> True
      | _ \<Rightarrow> False)"

text \<open>
  \<open>cb p node\<close> is the callback at the node \<open>node\<close> found at \<open>p\<close>;
  \<open>forEachChild_cb p i cs\<close> is \<^verbatim>\<open>ts.forEachChild(node, cb)\<close> on the children \<open>cs\<close> of
  the node at \<open>p\<close>, from the child of index \<open>i\<close> on. The callback returns
  \<^verbatim>\<open>undefined\<close> always, so no child is left out.
\<close>

function cb ::
  "TsUtils \<Rightarrow> TypeChecker \<Rightarrow> Options \<Rightarrow> Node \<Rightarrow> loc \<Rightarrow> Node \<Rightarrow> error + event list"
and forEachChild_cb ::
  "TsUtils \<Rightarrow> TypeChecker \<Rightarrow> Options \<Rightarrow> Node \<Rightarrow> loc \<Rightarrow> nat \<Rightarrow> Node list \<Rightarrow>
     error + event list"
where
  "cb u tc opts sf p node =
     (if kind node = Identifier
      then bindE (isDeclaration u sf p) (\<lambda>declaration.
             if \<not> declaration
             then bindE (getUnwantedTags u tc opts sf p) (\<lambda>found.
                    Inr (Resolve p #
                         (case found of
                            None \<Rightarrow> []
                          | Some t \<Rightarrow> [Failure p (FAILURE_STRING (node_text node) t)])))
             else Inr [])
      else if skipped (kind node) then Inr []
      else forEachChild_cb u tc opts sf p 0 (children node))"
| "forEachChild_cb u tc opts sf p i [] = Inr []"
| "forEachChild_cb u tc opts sf p i (c # cs) =
     bindE (cb u tc opts sf (p @ [i]) c) (\<lambda>here.
     bindE (forEachChild_cb u tc opts sf p (Suc i) cs) (\<lambda>there. Inr (here @ there)))"
  by pat_completeness auto
termination
  by (relation "measure (\<lambda>x. case x of
         Inl (u, tc, opts, sf, p, node) \<Rightarrow> size node
       | Inr (u, tc, opts, sf, p, i, cs) \<Rightarrow> size_list size cs)")
    (auto, case_tac node, simp)

definition walk :: "TsUtils \<Rightarrow> TypeChecker \<Rightarrow> Options \<Rightarrow> Node \<Rightarrow> error + event list" where
  "walk u tc opts sf = forEachChild_cb u tc opts sf [] 0 (children sf)"

definition failures :: "event list \<Rightarrow> (loc \<times> string) list" where
  "failures evs = concat (map (\<lambda>e. case e of Failure p m \<Rightarrow> [(p, m)] | Resolve p \<Rightarrow> []) evs)"

text \<open>\<^verbatim>\<open>applyWithProgram\<close>: the options are parsed, then the file is walked.\<close>

definition applyWithProgram ::
  "TsUtils \<Rightarrow> TypeChecker \<Rightarrow> arg list option \<Rightarrow> Node \<Rightarrow> error + (loc \<times> string) list" where
  "applyWithProgram u tc ruleArguments sf =
     bindE (parseOptions ruleArguments) (\<lambda>opts.
     bindE (walk u tc opts sf) (\<lambda>evs. Inr (failures evs)))"

section \<open>The course of the walk\<close>

text \<open>
  The nodes at which the callback is invoked, in order, each with its location:
  \<open>visitedNodes p node\<close> for the callback at \<open>node\<close>, \<open>visitedChildren p i cs\<close> for
  \<^verbatim>\<open>ts.forEachChild\<close> on the children \<open>cs\<close>, and \<open>visited sf\<close> for the walk of a file.
\<close>

function visitedNodes :: "loc \<Rightarrow> Node \<Rightarrow> (loc \<times> Node) list"
and visitedChildren :: "loc \<Rightarrow> nat \<Rightarrow> Node list \<Rightarrow> (loc \<times> Node) list"
where
  "visitedNodes p node =
     (p, node) #
     (if kind node = Identifier \<or> skipped (kind node) then []
      else visitedChildren p 0 (children node))"
| "visitedChildren p i [] = []"
| "visitedChildren p i (c # cs) = visitedNodes (p @ [i]) c @ visitedChildren p (Suc i) cs"
  by pat_completeness auto
termination
  by (relation "measure (\<lambda>x. case x of
         Inl (p, node) \<Rightarrow> size node
       | Inr (p, i, cs) \<Rightarrow> size_list size cs)")
    (auto, case_tac node, simp)

definition visited :: "Node \<Rightarrow> (loc \<times> Node) list" where
  "visited sf = visitedChildren [] 0 (children sf)"

text \<open>
  The same, told by the location: the callback, invoked at \<open>n\<close>, gets to the location
  \<open>r\<close> below \<open>n\<close> when no node on the way, \<open>n\<close> included and the node at \<open>r\<close>
  excluded, is an identifier or of a skipped kind.
\<close>

fun descends :: "Node \<Rightarrow> loc \<Rightarrow> bool" where
  "descends n [] = True"
| "descends n (i # r) =
     (kind n \<noteq> Identifier \<and> \<not> skipped (kind n) \<and> i < length (children n) \<and>
      descends (children n ! i) r)"

definition visits :: "Node \<Rightarrow> loc \<Rightarrow> bool" where
  "visits sf p =
     (case p of [] \<Rightarrow> False | i # r \<Rightarrow> i < length (children sf) \<and> descends (children sf ! i) r)"

text \<open>What the callback does at a node itself, and a sequence of such steps.\<close>

definition report ::
  "TsUtils \<Rightarrow> TypeChecker \<Rightarrow> Options \<Rightarrow> Node \<Rightarrow> loc \<times> Node \<Rightarrow> error + event list" where
  "report u tc opts sf x =
     (case x of (p, node) \<Rightarrow>
        if kind node = Identifier
        then bindE (isDeclaration u sf p) (\<lambda>declaration.
               if \<not> declaration
               then bindE (getUnwantedTags u tc opts sf p) (\<lambda>found.
                      Inr (Resolve p #
                           (case found of
                              None \<Rightarrow> []
                            | Some t \<Rightarrow> [Failure p (FAILURE_STRING (node_text node) t)])))
               else Inr [])
        else Inr [])"

fun mapE :: "('a \<Rightarrow> error + 'b list) \<Rightarrow> 'a list \<Rightarrow> error + 'b list" where
  "mapE f [] = Inr []"
| "mapE f (x # xs) = bindE (f x) (\<lambda>here. bindE (mapE f xs) (\<lambda>there. Inr (here @ there)))"

text \<open>
  The syntax trees and symbols that TypeScript builds. The root of a file is a
  \<^verbatim>\<open>SourceFile\<close>, the one kind of node without a parent. The documentation of a symbol
  can be read: it has the method \<^verbatim>\<open>getJsDocTags\<close>, or each of its declarations has the
  parents that \<open>documentedNode\<close> follows.
\<close>

definition symbols :: "TypeChecker \<Rightarrow> Symbol set" where
  "symbols tc =
     {s. (\<exists>l. getSymbolAtLocation tc l = Some s) \<or>
         (\<exists>l. getPropertySymbolOfDestructuringAssignment tc l = Some s) \<or>
         (\<exists>l n. getProperty (getTypeAtLocation tc l) n = Some s) \<or>
         (\<exists>s'. getAliasedSymbol tc s' = Some s)}"

definition readable :: "TsUtils \<Rightarrow> Symbol \<Rightarrow> bool" where
  "readable u s =
     (sym_getJsDocTags s \<noteq> None \<or>
      (\<forall>d \<in> set (case declarations s of None \<Rightarrow> [] | Some l \<Rightarrow> l).
         \<exists>d'. documentedNode u d = Inr d'))"

definition wellFormed :: "TsUtils \<Rightarrow> TypeChecker \<Rightarrow> Node \<Rightarrow> bool" where
  "wellFormed u tc sf = (kind sf = SourceFile \<and> (\<forall>s \<in> symbols tc. readable u s))"



text \<open>The events of a step that returned; none when it threw.\<close>

definition emitted :: "error + event list \<Rightarrow> event list" where
  "emitted r = (case r of Inl e \<Rightarrow> [] | Inr es \<Rightarrow> es)"

fun event_loc :: "event \<Rightarrow> loc" where
  "event_loc (Resolve p) = p"
| "event_loc (Failure p m) = p"

section \<open>Notions of the specification\<close>

text \<open>
  The callee of a call: \<open>callee sf q c\<close> when the node at \<open>c\<close> is the parent of the node
  at \<open>q\<close> and is a tagged template, or a call or constructor expression whose
  \<^verbatim>\<open>expression\<close> is the node at \<open>q\<close>. An identifier at \<open>p\<close> is a call target of \<open>c\<close> when
  it is the callee itself, or the name of a property access that is the callee (one
  indirection).
\<close>

definition callee :: "Node \<Rightarrow> loc \<Rightarrow> loc \<Rightarrow> bool" where
  "callee sf q c =
     (parent q = Some c \<and>
      (case node_at sf c of
         None \<Rightarrow> False
       | Some m \<Rightarrow>
           kind m = TaggedTemplateExpression \<or>
           ((kind m = CallExpression \<or> kind m = NewExpression) \<and> fills q (expression m))))"

definition callTarget :: "Node \<Rightarrow> loc \<Rightarrow> loc \<Rightarrow> bool" where
  "callTarget sf p c =
     (callee sf p c \<or>
      (case parent p of
         None \<Rightarrow> False
       | Some a \<Rightarrow>
           (case node_at sf a of
              None \<Rightarrow> False
            | Some am \<Rightarrow>
                kind am = PropertyAccessExpression \<and> fills p (name am) \<and> callee sf a c)))"

text \<open>
  Declaration sites, by the parent of the identifier: a named entity (which kinds are
  named entities is the parameter \<open>entity\<close>), a binding node of which the identifier is
  the name, a property assignment of which the identifier is the name, in an object
  literal that is not a reassignment target, or a binding element with a property name,
  of which the identifier is the name. \<open>namedEntity\<close> has the kinds for: class, interface,
  function, method, accessor, type alias, enum, namespace or module, label, attribute,
  type parameter.
\<close>

definition namedEntity :: "SyntaxKind \<Rightarrow> bool" where
  "namedEntity k =
     (k \<in> {ClassDeclaration, ClassExpression, InterfaceDeclaration, FunctionExpression,
           FunctionDeclaration, MethodDeclaration, MethodSignature, GetAccessor, SetAccessor,
           TypeAliasDeclaration, EnumDeclaration, ModuleDeclaration, LabeledStatement,
           JsxAttribute, TypeParameter})"

definition bindingNode :: "SyntaxKind \<Rightarrow> bool" where
  "bindingNode k =
     (k \<in> {VariableDeclaration, Parameter, PropertyDeclaration, EnumMember,
           ImportEqualsDeclaration})"

definition declarationSite :: "(SyntaxKind \<Rightarrow> bool) \<Rightarrow> TsUtils \<Rightarrow> Node \<Rightarrow> loc \<Rightarrow> bool" where
  "declarationSite entity u sf p =
     (case node_at sf (butlast p) of
        None \<Rightarrow> False
      | Some m \<Rightarrow>
          entity (kind m) \<or>
          (bindingNode (kind m) \<and> name m = Some (last p)) \<or>
          (kind m = PropertyAssignment \<and> name m = Some (last p) \<and>
           \<not> isReassignmentTarget u (butlast (butlast p))) \<or>
          (kind m = BindingElement \<and> name m = Some (last p) \<and> propertyName m \<noteq> None))"

section \<open>An example\<close>

text \<open>
  A file with seven statements:
  \<^verbatim>\<open>function f() {}\<close> (documented with the tags \<^verbatim>\<open>X\<close> and \<^verbatim>\<open>Y\<close>),
  \<^verbatim>\<open>f();\<close>,
  \<^verbatim>\<open>import { g } from "m";\<close>,
  \<^verbatim>\<open>g;\<close> (an alias of a variable whose statement is documented with \<^verbatim>\<open>X\<close>, without text),
  \<^verbatim>\<open>h();\<close> (an interface documented with \<^verbatim>\<open>X\<close>, merged with a function without tags),
  \<^verbatim>\<open>interface I { foo = init }\<close> and
  \<^verbatim>\<open>o.m();\<close> (unknown to the type checker).
  A statement and an import clause have kinds that the rule does not test for.
\<close>

definition ident :: "string \<Rightarrow> Node" where
  "ident s = Node Identifier s None None None []"

definition exampleFile :: Node where
  "exampleFile =
     Node SourceFile [] None None None
       [Node FunctionDeclaration [] (Some 0) None None [ident ''f''],
        Node (OtherKind 0) [] None None (Some 0)
          [Node CallExpression [] None None (Some 0) [ident ''f'']],
        Node ImportDeclaration [] None None None
          [Node (OtherKind 1) [] (Some 0) None None [ident ''g'']],
        Node (OtherKind 0) [] None None (Some 0) [ident ''g''],
        Node (OtherKind 0) [] None None (Some 0)
          [Node CallExpression [] None None (Some 0) [ident ''h'']],
        Node InterfaceDeclaration [] (Some 0) None None
          [ident ''I'',
           Node PropertySignature [] (Some 0) None None [ident ''foo'', ident ''init'']],
        Node (OtherKind 0) [] None None (Some 0)
          [Node CallExpression [] None None (Some 0)
             [Node PropertyAccessExpression [] (Some 1) None (Some 0) [ident ''o'', ident ''m'']]]]"

definition statementDecl :: Decl where
  "statementDecl = Decl (OtherKind 2) (Some (Decl SourceFile None 0)) 1"

definition symF :: Symbol where
  "symF = \<lparr>flags = 16,
           declarations = Some [Decl FunctionDeclaration (Some (Decl SourceFile None 0)) 2],
           sym_getJsDocTags =
             Some [\<lparr>tag_name = ''X'', tag_text = Some ''  ask first  ''\<rparr>,
                   \<lparr>tag_name = ''Y'', tag_text = Some ''all overloads''\<rparr>]\<rparr>"

definition symG :: Symbol where
  "symG = \<lparr>flags = 2097152,
           declarations = Some [Decl (OtherKind 3) (Some (Decl SourceFile None 0)) 3],
           sym_getJsDocTags = Some []\<rparr>"

definition symT :: Symbol where
  "symT = \<lparr>flags = 2,
           declarations =
             Some [Decl VariableDeclaration
                     (Some (Decl VariableDeclarationList (Some statementDecl) 4)) 5],
           sym_getJsDocTags = None\<rparr>"

definition symH :: Symbol where
  "symH = \<lparr>flags = 80,
           declarations =
             Some [Decl InterfaceDeclaration (Some (Decl SourceFile None 0)) 6,
                   Decl FunctionDeclaration (Some (Decl SourceFile None 0)) 7],
           sym_getJsDocTags = Some [\<lparr>tag_name = ''X'', tag_text = Some ''merged''\<rparr>]\<rparr>"

definition exampleChecker :: TypeChecker where
  "exampleChecker =
     \<lparr>getResolvedSignature =
        (\<lambda>l. if l = [1, 0]
             then Some \<lparr>sig_getJsDocTags =
                          Some [\<lparr>tag_name = ''X'', tag_text = Some ''  ask first  ''\<rparr>],
                        sig_declaration = None\<rparr>
             else if l = [4, 0]
             then Some \<lparr>sig_getJsDocTags = Some [], sig_declaration = None\<rparr>
             else None),
      getTypeAtLocation = (\<lambda>l. \<lparr>getProperty = (\<lambda>n. None)\<rparr>),
      getPropertySymbolOfDestructuringAssignment = (\<lambda>l. None),
      getSymbolAtLocation =
        (\<lambda>l. if l = [1, 0, 0] then Some symF
             else if l = [3, 0] then Some symG
             else if l = [4, 0, 0] then Some symH
             else None),
      getAliasedSymbol = (\<lambda>s. if s = symG then Some symT else None)\<rparr>"

definition exampleUtils :: TsUtils where
  "exampleUtils =
     \<lparr>isReassignmentTarget = (\<lambda>l. False),
      getDeclarationOfBindingElement = (\<lambda>d. d),
      getJsDoc =
        (\<lambda>d. if d = statementDecl
             then [\<lparr>tags = None\<rparr>, \<lparr>tags = Some [\<lparr>tagName_text = ''X'', comment = None\<rparr>]\<rparr>]
             else [])\<rparr>"

definition exampleOptions :: Options where
  "exampleOptions = \<lparr>opt_tags = [''X'']\<rparr>"

text \<open>
  Three more type checkers for the example. The first knows the property \<^verbatim>\<open>foo\<close> of the
  interface, documented with \<^verbatim>\<open>X\<close>. The second answers, for \<^verbatim>\<open>o\<close>, a symbol without
  \<^verbatim>\<open>getJsDocTags\<close> whose declaration is a variable declaration without a parent. The third
  is a type checker of typescript before 2.3.0: its signatures have no \<^verbatim>\<open>getJsDocTags\<close>,
  that of \<^verbatim>\<open>f()\<close> has a documented declaration and that of \<^verbatim>\<open>h()\<close> has none.
\<close>

definition symP :: Symbol where
  "symP = \<lparr>flags = 4,
           declarations =
             Some [Decl PropertySignature
                     (Some (Decl InterfaceDeclaration (Some (Decl SourceFile None 0)) 8)) 9],
           sym_getJsDocTags = Some [\<lparr>tag_name = ''X'', tag_text = Some ''documented''\<rparr>]\<rparr>"

definition propertyChecker :: TypeChecker where
  "propertyChecker =
     exampleChecker
       \<lparr>getSymbolAtLocation :=
          (\<lambda>l. if l = [5, 1, 0] then Some symP else getSymbolAtLocation exampleChecker l)\<rparr>"



definition compatChecker :: TypeChecker where
  "compatChecker =
     exampleChecker
       \<lparr>getResolvedSignature :=
          (\<lambda>l. if l = [1, 0]
               then Some \<lparr>sig_getJsDocTags = None, sig_declaration = Some statementDecl\<rparr>
               else if l = [4, 0]
               then Some \<lparr>sig_getJsDocTags = None, sig_declaration = None\<rparr>
               else None)\<rparr>"

section \<open>Properties\<close>

subsection \<open>Basic facts\<close>

lemma bindE_Inr [simp]: "bindE (Inr v) f = f v"
  by (simp add: bindE_def)

lemma bindE_Inl [simp]: "bindE (Inl e) f = Inl e"
  by (simp add: bindE_def)

lemma bindE_eq_Inr: "bindE m f = Inr r \<longleftrightarrow> (\<exists>v. m = Inr v \<and> f v = Inr r)"
  by (cases m) simp_all

lemma deref_simps [simp]: "deref None = Inl TypeError" "deref (Some v) = Inr v"
  by (simp_all add: deref_def)

lemma node_at_append:
  "node_at n (p @ q) = (case node_at n p of None \<Rightarrow> None | Some m \<Rightarrow> node_at m q)"
  by (induction p arbitrary: n) auto

lemma node_at_snoc:
  "node_at n (p @ [i]) =
     (case node_at n p of
        None \<Rightarrow> None
      | Some m \<Rightarrow> if i < length (children m) then Some (children m ! i) else None)"
  by (simp add: node_at_append split: option.splits)

lemma node_at_butlast:
  assumes "node_at sf p = Some n" "p \<noteq> []"
  shows "\<exists>m. node_at sf (butlast p) = Some m \<and> last p < length (children m) \<and>
             children m ! last p = n"
proof -
  from assms(2) have "p = butlast p @ [last p]" by simp
  with assms(1) have "node_at sf (butlast p @ [last p]) = Some n" by simp
  then show ?thesis
    by (auto simp: node_at_snoc split: option.splits if_splits)
qed

subsection \<open>The match test\<close>

lemma tags_find:
  "getUnwantedTagsFromDeclaration_tags opts ts =
     (case List.find (\<lambda>t. tagName_text t \<in> set (opt_tags opts)) ts of
        None \<Rightarrow> None
      | Some t \<Rightarrow> Some (case comment t of None \<Rightarrow> [] | Some x \<Rightarrow> x))"
  by (induction ts) auto

lemma find_append:
  "List.find P (xs @ ys) = (case List.find P xs of None \<Rightarrow> List.find P ys | Some x \<Rightarrow> Some x)"
  by (induction xs) auto

lemma comments_find:
  "getUnwantedTagsFromDeclaration_comments opts cs =
     (case List.find (\<lambda>t. tagName_text t \<in> set (opt_tags opts))
             (concat (map (\<lambda>c. case tags c of None \<Rightarrow> [] | Some ts \<Rightarrow> ts) cs)) of
        None \<Rightarrow> None
      | Some t \<Rightarrow> Some (case comment t of None \<Rightarrow> [] | Some x \<Rightarrow> x))"
  by (induction cs) (auto simp: tags_find find_append split: option.splits)

text \<open>
  Claim C5. The match test scans the fetched tags in order and returns the text of the
  first tag whose name is one of the configured names (equality of strings), the empty
  string when that tag has no text, and no match when no tag has a configured name. This
  holds of \<open>findUnwantedTagsTag\<close>, on the tags that \<^verbatim>\<open>getJsDocTags\<close> returned, and of
  \<open>getUnwantedTagsFromDeclaration\<close>, on the tags of the documentation comments of a
  declaration, comment after comment (a comment without tags has none).
\<close>

theorem match_test_first_configured_tag:
  "findUnwantedTagsTag opts ts =
     (case List.find (\<lambda>t. tag_name t \<in> set (opt_tags opts)) ts of
        None \<Rightarrow> None
      | Some t \<Rightarrow> Some (case tag_text t of None \<Rightarrow> [] | Some x \<Rightarrow> x))
   \<and> getUnwantedTagsFromDeclaration u opts d =
     (case List.find (\<lambda>t. tagName_text t \<in> set (opt_tags opts))
             (concat (map (\<lambda>c. case tags c of None \<Rightarrow> [] | Some ts \<Rightarrow> ts) (getJsDoc u d))) of
        None \<Rightarrow> None
      | Some t \<Rightarrow> Some (case comment t of None \<Rightarrow> [] | Some x \<Rightarrow> x))"
proof
  show "findUnwantedTagsTag opts ts =
     (case List.find (\<lambda>t. tag_name t \<in> set (opt_tags opts)) ts of
        None \<Rightarrow> None
      | Some t \<Rightarrow> Some (case tag_text t of None \<Rightarrow> [] | Some x \<Rightarrow> x))"
    by (induction ts) auto
next
  show "getUnwantedTagsFromDeclaration u opts d =
     (case List.find (\<lambda>t. tagName_text t \<in> set (opt_tags opts))
             (concat (map (\<lambda>c. case tags c of None \<Rightarrow> [] | Some ts \<Rightarrow> ts) (getJsDoc u d))) of
        None \<Rightarrow> None
      | Some t \<Rightarrow> Some (case comment t of None \<Rightarrow> [] | Some x \<Rightarrow> x))"
    by (simp add: getUnwantedTagsFromDeclaration_def comments_find)
qed

text \<open>The names are compared as they are written, and the first configured tag wins.\<close>

lemma match_test_example:
  "findUnwantedTagsTag \<lparr>opt_tags = [''X'']\<rparr>
     [\<lparr>tag_name = ''x'', tag_text = Some ''other case''\<rparr>,
      \<lparr>tag_name = ''X'', tag_text = None\<rparr>,
      \<lparr>tag_name = ''X'', tag_text = Some ''later''\<rparr>] = Some []"
  by simp

subsection \<open>The walk as a sequence of steps\<close>

lemma bindE_return2: "bindE m Inr = m"
  by (cases m) simp_all

lemma mapE_append:
  "mapE f (xs @ ys) = bindE (mapE f xs) (\<lambda>here. bindE (mapE f ys) (\<lambda>there. Inr (here @ there)))"
proof (induction xs)
  case Nil
  show ?case by (simp add: bindE_return2)
next
  case (Cons x xs)
  show ?case
  proof (cases "f x")
    case (Inl e)
    then show ?thesis by simp
  next
    case (Inr h)
    show ?thesis
    proof (cases "mapE f xs")
      case (Inl e)
      with Inr Cons show ?thesis by simp
    next
      case r: (Inr t)
      show ?thesis
      proof (cases "mapE f ys")
        case (Inl e)
        with Inr r Cons show ?thesis by simp
      next
        case (Inr t')
        with \<open>f x = Inr h\<close> r Cons show ?thesis by simp
      qed
    qed
  qed
qed

lemma report_not_identifier: "kind node \<noteq> Identifier \<Longrightarrow> report u tc opts sf (p, node) = Inr []"
  by (simp add: report_def)

lemma cb_mapE:
  "cb u tc opts sf p node = mapE (report u tc opts sf) (visitedNodes p node)"
  "forEachChild_cb u tc opts sf p i cs = mapE (report u tc opts sf) (visitedChildren p i cs)"
proof (induction u tc opts sf p node and u tc opts sf p i cs rule: cb_forEachChild_cb.induct)
  case (1 u tc opts sf p node)
  show ?case
  proof (cases "kind node = Identifier")
    case True
    then show ?thesis by (simp add: report_def bindE_return2)
  next
    case False
    show ?thesis
    proof (cases "skipped (kind node)")
      case True
      with False show ?thesis by (simp add: report_not_identifier)
    next
      case ns: False
      with False 1 show ?thesis by (simp add: report_not_identifier bindE_return2)
    qed
  qed
next
  case (2 u tc opts sf p i)
  show ?case by simp
next
  case (3 u tc opts sf p i c cs)
  then show ?case by (simp del: cb.simps visitedNodes.simps add: mapE_append)
qed

lemma walk_mapE: "walk u tc opts sf = mapE (report u tc opts sf) (visited sf)"
  by (simp add: walk_def visited_def cb_mapE)


lemma ex_list_cases: "(\<exists>r. P r) \<longleftrightarrow> P [] \<or> (\<exists>k r. P (k # r))"
  by (metis list.exhaust)

lemma ex_nat_cases: "(\<exists>k. P k) \<longleftrightarrow> P 0 \<or> (\<exists>k. P (Suc k))"
  by (metis not0_implies_Suc)

lemma visited_iff:
  "(q, n) \<in> set (visitedNodes p node) \<longleftrightarrow>
     (\<exists>r. q = p @ r \<and> descends node r \<and> node_at node r = Some n)"
  "(q, n) \<in> set (visitedChildren p i cs) \<longleftrightarrow>
     (\<exists>k r. k < length cs \<and> q = p @ (i + k) # r \<and> descends (cs ! k) r \<and>
            node_at (cs ! k) r = Some n)"
proof (induction p node and p i cs arbitrary: q n and q n rule: visitedNodes_visitedChildren.induct)
  case (1 p node)
  show ?case
  proof (cases "kind node = Identifier \<or> skipped (kind node)")
    case True
    then show ?thesis
      by (subst ex_list_cases) auto
  next
    case False
    with 1 show ?thesis
      by (subst ex_list_cases) auto
  qed
next
  case (2 p i)
  show ?case by simp
next
  case (3 p i c cs)
  have "(q, n) \<in> set (visitedChildren p i (c # cs)) \<longleftrightarrow>
          (q, n) \<in> set (visitedNodes (p @ [i]) c) \<or> (q, n) \<in> set (visitedChildren p (Suc i) cs)"
    by (simp del: visitedNodes.simps)
  also have "\<dots> \<longleftrightarrow>
     (\<exists>r. q = (p @ [i]) @ r \<and> descends c r \<and> node_at c r = Some n) \<or>
     (\<exists>k r. k < length cs \<and> q = p @ (Suc i + k) # r \<and> descends (cs ! k) r \<and>
            node_at (cs ! k) r = Some n)"
    by (simp only: 3)
  also have "\<dots> \<longleftrightarrow>
     (\<exists>k r. k < length (c # cs) \<and> q = p @ (i + k) # r \<and> descends ((c # cs) ! k) r \<and>
            node_at ((c # cs) ! k) r = Some n)"
    by (subst (2) ex_nat_cases) simp
  finally show ?case .
qed

lemma visited_prefix:
  "q \<in> fst ` set (visitedChildren p i cs) \<Longrightarrow> \<exists>k r. q = p @ (i + k) # r"
  using visited_iff(2) by fastforce

lemma visitedNodes_prefix:
  "q \<in> fst ` set (visitedNodes p node) \<Longrightarrow> \<exists>r. q = p @ r"
  using visited_iff(1) by fastforce

lemma visited_distinct:
  "distinct (map fst (visitedNodes p node))"
  "distinct (map fst (visitedChildren p i cs))"
proof (induction p node and p i cs rule: visitedNodes_visitedChildren.induct)
  case (1 p node)
  have "p \<notin> fst ` set (visitedChildren p 0 (children node))"
    using visited_prefix by fastforce
  with 1 show ?case by auto
next
  case (2 p i)
  show ?case by simp
next
  case (3 p i c cs)
  have "fst ` set (visitedNodes (p @ [i]) c) \<inter> fst ` set (visitedChildren p (Suc i) cs) = {}"
  proof (rule ccontr)
    assume "\<not> ?thesis"
    then obtain q where a: "q \<in> fst ` set (visitedNodes (p @ [i]) c)"
      and b: "q \<in> fst ` set (visitedChildren p (Suc i) cs)" by blast
    from visitedNodes_prefix[OF a] obtain r where "q = (p @ [i]) @ r" by blast
    moreover from visited_prefix[OF b] obtain k r' where "q = p @ (Suc i + k) # r'" by blast
    ultimately show False by simp
  qed
  with 3 show ?case by (simp del: visitedNodes.simps)
qed

lemma visited_visits:
  "(q, n) \<in> set (visited sf) \<longleftrightarrow> visits sf q \<and> node_at sf q = Some n"
proof -
  have "(q, n) \<in> set (visited sf) \<longleftrightarrow>
     (\<exists>k r. k < length (children sf) \<and> q = k # r \<and> descends (children sf ! k) r \<and>
            node_at (children sf ! k) r = Some n)"
    by (simp add: visited_def visited_iff(2))
  also have "\<dots> \<longleftrightarrow> visits sf q \<and> node_at sf q = Some n"
    by (cases q) (auto simp: visits_def)
  finally show ?thesis .
qed


lemma descends_node_at: "descends n r \<Longrightarrow> \<exists>m. node_at n r = Some m"
  by (induction r arbitrary: n) auto

lemma descends_open:
  "descends n (r1 @ i # r2) \<Longrightarrow>
     \<exists>m. node_at n r1 = Some m \<and> kind m \<noteq> Identifier \<and> \<not> skipped (kind m)"
  by (induction r1 arbitrary: n) auto

lemma visits_valid: "visits sf p \<Longrightarrow> p \<noteq> [] \<and> (\<exists>n. node_at sf p = Some n)"
  by (cases p) (auto simp: visits_def dest: descends_node_at)

lemma parent_simps [simp]: "parent [] = None" "p \<noteq> [] \<Longrightarrow> parent p = Some (butlast p)"
  by (simp_all add: parent_def)

lemma isDeclaration_total:
  assumes "kind sf = SourceFile" "node_at sf p = Some n" "p \<noteq> []"
  shows "\<exists>b. isDeclaration u sf p = Inr b"
proof -
  from node_at_butlast[OF assms(2,3)] obtain m where m: "node_at sf (butlast p) = Some m"
    by blast
  have "kind m = PropertyAssignment \<Longrightarrow> butlast p \<noteq> []"
    using m assms(1) by (cases "butlast p") auto
  then show ?thesis
    using assms(3) m by (auto simp add: isDeclaration_def split: SyntaxKind.split)
qed

lemma getCallExpresion_total:
  assumes "kind sf = SourceFile" "node_at sf p = Some n" "p \<noteq> []"
  shows "\<exists>c. getCallExpresion sf p = Inr c"
proof -
  from node_at_butlast[OF assms(2,3)] obtain m where m: "node_at sf (butlast p) = Some m"
    by blast
  show ?thesis
  proof (cases "kind m = PropertyAccessExpression \<and> fills p (name m)")
    case True
    then have ne: "butlast p \<noteq> []"
      using m assms(1) by (cases "butlast p") auto
    from node_at_butlast[OF m ne] obtain g where "node_at sf (butlast (butlast p)) = Some g"
      by blast
    with True ne m assms(3) show ?thesis
      by (simp add: getCallExpresion_def)
  next
    case False
    with m assms(3) show ?thesis
      by (auto simp add: getCallExpresion_def)
  qed
qed

lemma symbolOf_total:
  assumes "kind sf = SourceFile" "node_at sf p = Some n" "p \<noteq> []"
  shows "\<exists>s. symbolOf u tc sf p = Inr s \<and> (\<forall>s'. s = Some s' \<longrightarrow> s' \<in> symbols tc)"
proof -
  from node_at_butlast[OF assms(2,3)] obtain m where m: "node_at sf (butlast p) = Some m"
    by blast
  have "kind m = BindingElement \<Longrightarrow> butlast p \<noteq> []"
    using m assms(1) by (cases "butlast p") auto
  then show ?thesis
    using assms(2,3) m by (auto simp add: symbolOf_def symbols_def)
qed

lemma unalias_symbols:
  "\<forall>s'. s = Some s' \<longrightarrow> s' \<in> symbols tc \<Longrightarrow> unalias tc s = Some t \<Longrightarrow> t \<in> symbols tc"
  by (auto simp: unalias_def symbols_def split: option.splits if_splits)

lemma loop_total:
  "\<forall>d \<in> set ds. \<exists>d'. documentedNode u d = Inr d' \<Longrightarrow>
     \<exists>r. getUnwantedTagsFromDeclarations_loop u opts ds = Inr r"
  by (induction ds) (auto split: option.splits)

lemma getSymbolUnwantedTags_total:
  "readable u s \<Longrightarrow> \<exists>r. getSymbolUnwantedTags u opts s = Inr r"
  using loop_total[of "the (declarations s)" u opts]
  by (auto simp: readable_def getSymbolUnwantedTags_def getUnwantedTagsFromDeclarations_def
      split: option.splits)

lemma getUnwantedTags_total:
  assumes "wellFormed u tc sf" "node_at sf p = Some n" "p \<noteq> []"
  shows "\<exists>r. getUnwantedTags u tc opts sf p = Inr r"
proof -
  from assms(1) have sf: "kind sf = SourceFile" by (simp add: wellFormed_def)
  from getCallExpresion_total[OF sf assms(2,3)] obtain c where c: "getCallExpresion sf p = Inr c"
    by blast
  from symbolOf_total[OF sf assms(2,3)] obtain s where s: "symbolOf u tc sf p = Inr s"
    and ss: "\<forall>s'. s = Some s' \<longrightarrow> s' \<in> symbols tc" by blast
  have "\<exists>r. getSymbolUnwantedTags u opts t = Inr r" if "unalias tc s = Some t" for t
    using unalias_symbols[OF ss that] assms(1) getSymbolUnwantedTags_total
    by (auto simp: wellFormed_def)
  then show ?thesis
    using c s by (auto simp: getUnwantedTags_def split: option.splits)
qed

lemma report_total:
  assumes "wellFormed u tc sf" "node_at sf p = Some n" "p \<noteq> []"
  shows "\<exists>es. report u tc opts sf (p, n) = Inr es"
proof -
  from assms(1) have sf: "kind sf = SourceFile" by (simp add: wellFormed_def)
  from isDeclaration_total[OF sf assms(2,3)] obtain b where "isDeclaration u sf p = Inr b"
    by blast
  moreover from getUnwantedTags_total[OF assms] obtain r where
    "getUnwantedTags u tc opts sf p = Inr r" by blast
  ultimately show ?thesis by (simp add: report_def)
qed

lemma mapE_total:
  "\<forall>x \<in> set xs. \<exists>es. f x = Inr es \<Longrightarrow>
     mapE f xs = Inr (concat (map (\<lambda>x. emitted (f x)) xs))"
  by (induction xs) (auto simp: emitted_def)

lemma walk_total:
  assumes "wellFormed u tc sf"
  shows "walk u tc opts sf =
           Inr (concat (map (\<lambda>x. emitted (report u tc opts sf x)) (visited sf)))"
proof -
  have "\<exists>es. report u tc opts sf x = Inr es" if "x \<in> set (visited sf)" for x
  proof -
    obtain q n where x: "x = (q, n)" by (cases x)
    with that have "visits sf q" "node_at sf q = Some n" by (simp_all add: visited_visits)
    with report_total[OF assms, of q n] visits_valid[of sf q] x show ?thesis by auto
  qed
  then show ?thesis by (simp add: walk_mapE mapE_total)
qed

subsection \<open>The shape of the declarations\<close>




subsection \<open>The events of the walk\<close>

lemma report_event_loc:
  "e \<in> set (emitted (report u tc opts sf (q, m))) \<Longrightarrow> event_loc e = q"
  by (auto simp: report_def emitted_def bindE_def split: sum.splits if_splits option.splits)

lemma filter_loc_same:
  "\<forall>e \<in> set ys. event_loc e = p \<Longrightarrow> filter (\<lambda>e. event_loc e = p) ys = ys"
  by (induction ys) auto

lemma filter_loc_other:
  "\<forall>e \<in> set ys. event_loc e = q \<Longrightarrow> q \<noteq> p \<Longrightarrow> filter (\<lambda>e. event_loc e = p) ys = []"
  by (induction ys) auto

lemma filter_concat_absent:
  assumes "p \<notin> fst ` set xs" "\<forall>x \<in> set xs. \<forall>e \<in> set (g x). event_loc e = fst x"
  shows "filter (\<lambda>e. event_loc e = p) (concat (map g xs)) = []"
  using assms
proof (induction xs)
  case Nil
  show ?case by simp
next
  case (Cons x xs)
  from Cons.prems have "fst x \<noteq> p" by auto
  with Cons.prems have "filter (\<lambda>e. event_loc e = p) (g x) = []"
    by (intro filter_loc_other[of _ "fst x"]) auto
  with Cons show ?case by simp
qed

lemma filter_concat_distinct:
  assumes "distinct (map fst xs)" "(p, n) \<in> set xs"
    "\<forall>x \<in> set xs. \<forall>e \<in> set (g x). event_loc e = fst x"
  shows "filter (\<lambda>e. event_loc e = p) (concat (map g xs)) = g (p, n)"
  using assms
proof (induction xs)
  case Nil
  then show ?case by simp
next
  case (Cons x xs)
  show ?case
  proof (cases "x = (p, n)")
    case True
    with Cons.prems have "p \<notin> fst ` set xs" by auto
    with Cons.prems have "filter (\<lambda>e. event_loc e = p) (concat (map g xs)) = []"
      by (intro filter_concat_absent) auto
    moreover from True Cons.prems have "filter (\<lambda>e. event_loc e = p) (g x) = g x"
      by (intro filter_loc_same) auto
    ultimately show ?thesis using True by simp
  next
    case False
    with Cons.prems have in_rest: "(p, n) \<in> set xs" by auto
    then have "p \<in> fst ` set xs" by force
    with Cons.prems have "fst x \<noteq> p" by auto
    with Cons.prems have "filter (\<lambda>e. event_loc e = p) (g x) = []"
      by (intro filter_loc_other[of _ "fst x"]) auto
    moreover from Cons in_rest have "filter (\<lambda>e. event_loc e = p) (concat (map g xs)) = g (p, n)"
      by auto
    ultimately show ?thesis by simp
  qed
qed

lemma walk_events_at:
  assumes "wellFormed u tc sf" "visits sf p" "node_at sf p = Some n"
  shows "\<exists>evs. walk u tc opts sf = Inr evs \<and>
           filter (\<lambda>e. event_loc e = p) evs = emitted (report u tc opts sf (p, n))"
proof -
  let ?g = "\<lambda>x. emitted (report u tc opts sf x)"
  have m: "(p, n) \<in> set (visited sf)"
    using assms(2,3) by (simp add: visited_visits)
  have d: "distinct (map fst (visited sf))"
    by (simp add: visited_def visited_distinct)
  have l: "\<forall>x \<in> set (visited sf). \<forall>e \<in> set (?g x). event_loc e = fst x"
    using report_event_loc by fastforce
  have "filter (\<lambda>e. event_loc e = p) (concat (map ?g (visited sf))) = ?g (p, n)"
    by (rule filter_concat_distinct[OF d m l])
  with walk_total[OF assms(1)] show ?thesis by simp
qed

lemma walk_events_visited:
  assumes "wellFormed u tc sf" "walk u tc opts sf = Inr evs" "e \<in> set evs"
  shows "\<exists>n. visits sf (event_loc e) \<and> node_at sf (event_loc e) = Some n \<and>
             e \<in> set (emitted (report u tc opts sf (event_loc e, n)))"
proof -
  from walk_total[OF assms(1)] assms(2,3)
  obtain x where x: "x \<in> set (visited sf)" "e \<in> set (emitted (report u tc opts sf x))"
    by auto
  obtain q n where qn: "x = (q, n)" by (cases x)
  with x(2) have "event_loc e = q" by (simp add: report_event_loc)
  with x qn show ?thesis by (auto simp: visited_visits)
qed

lemma failures_filter:
  "filter (\<lambda>f. fst f = p) (failures evs) = failures (filter (\<lambda>e. event_loc e = p) evs)"
  by (induction evs) (auto simp: failures_def split: event.splits)

lemma failures_mem: "(p, m) \<in> set (failures evs) \<longleftrightarrow> Failure p m \<in> set evs"
  by (induction evs) (auto simp: failures_def split: event.splits)

lemma mem_filter_loc:
  "e \<in> set evs \<longleftrightarrow> e \<in> set (filter (\<lambda>x. event_loc x = event_loc e) evs)"
  by simp

lemma visits_open:
  assumes "visits sf q" "strict_prefix p q" "p \<noteq> []"
  shows "\<exists>m. node_at sf p = Some m \<and> kind m \<noteq> Identifier \<and> \<not> skipped (kind m)"
proof -
  from assms(2) obtain i r2 where q: "q = p @ i # r2"
    by (auto elim: strict_prefixE')
  from assms(3) obtain k r where p: "p = k # r" by (cases p) auto
  from assms(1) q p have k: "k < length (children sf)"
    and d: "descends (children sf ! k) (r @ i # r2)"
    by (simp_all add: visits_def)
  from descends_open[OF d] k p show ?thesis by simp
qed

subsection \<open>The empty list of tags\<close>

lemma findUnwantedTagsTag_empty: "opt_tags opts = [] \<Longrightarrow> findUnwantedTagsTag opts ts = None"
  by (induction ts) auto

lemma tags_empty: "opt_tags opts = [] \<Longrightarrow> getUnwantedTagsFromDeclaration_tags opts ts = None"
  by (induction ts) auto

lemma comments_empty:
  "opt_tags opts = [] \<Longrightarrow> getUnwantedTagsFromDeclaration_comments opts cs = None"
  by (induction cs) (auto simp: tags_empty split: option.splits)

lemma getUnwantedTagsFromDeclaration_empty:
  "opt_tags opts = [] \<Longrightarrow> getUnwantedTagsFromDeclaration u opts d = None"
  by (simp add: getUnwantedTagsFromDeclaration_def comments_empty)

lemma getSignatureUnwantedTags_empty:
  "opt_tags opts = [] \<Longrightarrow> getSignatureUnwantedTags u opts sg = None"
  by (simp add: getSignatureUnwantedTags_def findUnwantedTagsTag_empty
      getUnwantedTagsFromDeclaration_empty split: option.splits)

lemma loop_empty:
  "opt_tags opts = [] \<Longrightarrow> getUnwantedTagsFromDeclarations_loop u opts ds = Inr r \<Longrightarrow> r = None"
  by (induction ds)
    (auto simp: getUnwantedTagsFromDeclaration_empty bindE_eq_Inr split: option.splits)

lemma getSymbolUnwantedTags_empty:
  "opt_tags opts = [] \<Longrightarrow> getSymbolUnwantedTags u opts s = Inr r \<Longrightarrow> r = None"
  by (auto simp: getSymbolUnwantedTags_def getUnwantedTagsFromDeclarations_def
      findUnwantedTagsTag_empty split: option.splits dest: loop_empty)

lemma getUnwantedTags_empty:
  "opt_tags opts = [] \<Longrightarrow> getUnwantedTags u tc opts sf p = Inr r \<Longrightarrow> r = None"
  by (auto simp: getUnwantedTags_def getSignatureUnwantedTags_empty bindE_eq_Inr
      split: option.splits if_splits dest: getSymbolUnwantedTags_empty)

lemma report_empty:
  assumes "opt_tags opts = []"
  shows "failures (emitted (report u tc opts sf x)) = []"
proof (cases "report u tc opts sf x")
  case (Inl e)
  then show ?thesis by (simp add: emitted_def failures_def)
next
  case (Inr es)
  obtain p n where x: "x = (p, n)" by (cases x)
  from Inr x have "es = [] \<or> es = [Resolve p]"
    using getUnwantedTags_empty[OF assms, of u tc sf p]
    by (auto simp: report_def bindE_eq_Inr split: if_splits option.splits)
  with Inr show ?thesis by (auto simp: emitted_def failures_def)
qed

lemma failures_append: "failures (xs @ ys) = failures xs @ failures ys"
  by (simp add: failures_def)

lemma failures_concat_empty:
  "\<forall>x \<in> set xs. failures (g x) = [] \<Longrightarrow> failures (concat (map g xs)) = []"
  by (induction xs) (auto simp: failures_append, simp add: failures_def)

lemma mapE_Inr:
  "mapE f xs = Inr evs \<Longrightarrow> evs = concat (map (\<lambda>x. emitted (f x)) xs)"
  by (induction xs arbitrary: evs) (auto simp: bindE_eq_Inr emitted_def)

lemma walk_empty:
  assumes "opt_tags opts = []" "walk u tc opts sf = Inr evs"
  shows "failures evs = []"
proof -
  from assms(2) have "evs = concat (map (\<lambda>x. emitted (report u tc opts sf x)) (visited sf))"
    by (simp add: walk_mapE mapE_Inr)
  then show ?thesis
    using report_empty[OF assms(1)] by (simp add: failures_concat_empty)
qed

lemma parseOptions_short: "length args < 2 \<Longrightarrow> parseOptions (Some args) = Inr \<lparr>opt_tags = []\<rparr>"
  by (simp add: parseOptions_def)

lemma parseOptions_index0: "parseOptions (Some (a # rest)) = parseOptions (Some (b # rest))"
  by (simp add: parseOptions_def)

subsection \<open>The message\<close>

lemma hd_prefix_dropWhile:
  assumes "rev (dropWhile P (rev t)) \<noteq> []"
  shows "hd (rev (dropWhile P (rev t))) = hd t"
proof -
  have "t = rev (dropWhile P (rev t)) @ rev (takeWhile P (rev t))"
    by (metis rev_append rev_rev_ident takeWhile_dropWhile_id)
  with assms show ?thesis by (metis hd_append2)
qed

lemma trim_spec:
  "\<exists>a b. s = a @ trim s @ b \<and> (\<forall>c \<in> set a. isWhiteSpace c) \<and> (\<forall>c \<in> set b. isWhiteSpace c) \<and>
         (trim s \<noteq> [] \<longrightarrow> \<not> isWhiteSpace (hd (trim s)) \<and> \<not> isWhiteSpace (last (trim s)))"
proof -
  let ?t = "dropWhile isWhiteSpace s"
  let ?a = "takeWhile isWhiteSpace s"
  let ?b = "rev (takeWhile isWhiteSpace (rev ?t))"
  have t: "?t = trim s @ ?b"
    unfolding trim_def by (metis rev_append rev_rev_ident takeWhile_dropWhile_id)
  have "s = ?a @ ?t" by simp
  with t have s: "s = ?a @ trim s @ ?b" by simp
  have a: "\<forall>c \<in> set ?a. isWhiteSpace c" by (auto dest: set_takeWhileD)
  have b: "\<forall>c \<in> set ?b. isWhiteSpace c" by (auto dest: set_takeWhileD)
  have e: "\<not> isWhiteSpace (hd (trim s)) \<and> \<not> isWhiteSpace (last (trim s))" if ne: "trim s \<noteq> []"
  proof
    from ne have "hd (trim s) = hd ?t"
      unfolding trim_def by (rule hd_prefix_dropWhile)
    moreover have "?t \<noteq> []"
    proof
      assume "?t = []"
      with t have "trim s = []" by (metis append_is_Nil_conv)
      with ne show False by simp
    qed
    ultimately show "\<not> isWhiteSpace (hd (trim s))"
      using hd_dropWhile[of isWhiteSpace s] by simp
    from ne have "dropWhile isWhiteSpace (rev ?t) \<noteq> []" by (simp add: trim_def)
    then have "\<not> isWhiteSpace (hd (dropWhile isWhiteSpace (rev ?t)))"
      by (rule hd_dropWhile)
    moreover have "last (trim s) = hd (dropWhile isWhiteSpace (rev ?t))"
      using ne by (simp add: trim_def last_rev)
    ultimately show "\<not> isWhiteSpace (last (trim s))" by simp
  qed
  from s a b e show ?thesis by blast
qed

lemma report_Failure:
  assumes "Failure p m \<in> set (emitted (report u tc opts sf (q, n)))"
  shows "kind n = Identifier \<and> isDeclaration u sf p = Inr False \<and>
         (\<exists>t. getUnwantedTags u tc opts sf p = Inr (Some t) \<and> m = FAILURE_STRING (node_text n) t)"
  using assms
  by (auto simp: report_def emitted_def bindE_def split: sum.splits if_splits option.splits)

subsection \<open>The example\<close>

lemmas resolver_defs = isDeclaration_def getUnwantedTags_def
  getCallExpresion_def getSignatureUnwantedTags_def symbolOf_def unalias_def
  isSymbolFlagSet_def Alias_def isFunctionOrMethod_def getSymbolUnwantedTags_def
  getUnwantedTagsFromDeclarations_def documentedNode_def getUnwantedTagsFromDeclaration_def
  parent_def fills_def

lemmas message_defs = FAILURE_STRING_def trim_def isWhiteSpace_def

lemmas example_defs = exampleFile_def ident_def exampleChecker_def exampleUtils_def
  exampleOptions_def symF_def symG_def symT_def symH_def statementDecl_def

lemma example_wellFormed: "wellFormed exampleUtils exampleChecker exampleFile"
  unfolding wellFormed_def
proof
  show "kind exampleFile = SourceFile" by (simp add: exampleFile_def)
next
  show "\<forall>s \<in> symbols exampleChecker. readable exampleUtils s"
    by (auto simp: symbols_def readable_def example_defs documentedNode_def split: if_splits)
qed

lemma example_walk:
  "walk exampleUtils exampleChecker exampleOptions exampleFile =
     Inr [Resolve [1, 0, 0], Failure [1, 0, 0] ''Found disallowed tag at f: ask first'',
          Resolve [3, 0], Failure [3, 0] ''Found disallowed tag at g.'',
          Resolve [4, 0, 0], Failure [4, 0, 0] ''Found disallowed tag at h: merged'',
          Resolve [6, 0, 0, 0], Resolve [6, 0, 0, 1]]"
  by (simp add: walk_def example_defs skipped_def resolver_defs message_defs)


lemma property_wellFormed: "wellFormed exampleUtils propertyChecker exampleFile"
  unfolding wellFormed_def
proof
  show "kind exampleFile = SourceFile" by (simp add: exampleFile_def)
next
  show "\<forall>s \<in> symbols propertyChecker. readable exampleUtils s"
    by (auto simp: symbols_def readable_def propertyChecker_def symP_def example_defs
        documentedNode_def split: if_splits)
qed

lemmas path_defs = symbolPath_def symbolOf_def unalias_def isSymbolFlagSet_def Alias_def
  isFunctionOrMethod_def getSymbolUnwantedTags_def getUnwantedTagsFromDeclarations_def
  documentedNode_def getUnwantedTagsFromDeclaration_def parent_def fills_def

subsection \<open>The walk\<close>

lemma isDeclaration_declarationSite:
  assumes "kind sf = SourceFile" and "node_at sf p = Some n" and "p \<noteq> []"
  shows "isDeclaration u sf p =
           Inr (declarationSite (\<lambda>k. namedEntity k \<or> k = PropertySignature) u sf p)"
proof -
  from node_at_butlast[OF assms(2,3)] obtain m where m: "node_at sf (butlast p) = Some m"
    by blast
  have "kind m = PropertyAssignment \<Longrightarrow> butlast p \<noteq> []"
    using m assms(1) by (cases "butlast p") auto
  then show ?thesis
    using assms(3) m
    by (cases "kind m")
      (simp_all add: isDeclaration_def declarationSite_def namedEntity_def bindingNode_def
        fills_def)
qed

text \<open>
  Claim C1, amended. The file is well formed, so that the walk returns. For an identifier
  that the walk visits, the classifier returns whether it is a declaration site, the
  property signature being counted among the named entities. A failure is reported at its
  location exactly when it is no such declaration site and the resolver returns a match;
  there is then exactly one failure at its location, and its message is made of the text
  of the identifier and the text of the match. The resolver is invoked on it exactly when
  it is no such declaration site: for a declaration site the resolver is not invoked and
  no failure is reported at its location.
\<close>

theorem walk_reports_usages:
  assumes "wellFormed u tc sf" and "visits sf p" and "node_at sf p = Some n"
    and "kind n = Identifier"
  shows "\<exists>evs. walk u tc opts sf = Inr evs \<and>
     isDeclaration u sf p =
       Inr (declarationSite (\<lambda>k. namedEntity k \<or> k = PropertySignature) u sf p) \<and>
     ((\<exists>m. Failure p m \<in> set evs) \<longleftrightarrow>
        \<not> declarationSite (\<lambda>k. namedEntity k \<or> k = PropertySignature) u sf p \<and>
        (\<exists>t. getUnwantedTags u tc opts sf p = Inr (Some t))) \<and>
     (\<forall>t. \<not> declarationSite (\<lambda>k. namedEntity k \<or> k = PropertySignature) u sf p \<and>
          getUnwantedTags u tc opts sf p = Inr (Some t) \<longrightarrow>
        filter (\<lambda>f. fst f = p) (failures evs) = [(p, FAILURE_STRING (node_text n) t)]) \<and>
     (Resolve p \<in> set evs \<longleftrightarrow>
        \<not> declarationSite (\<lambda>k. namedEntity k \<or> k = PropertySignature) u sf p) \<and>
     (declarationSite (\<lambda>k. namedEntity k \<or> k = PropertySignature) u sf p \<longrightarrow>
        Resolve p \<notin> set evs \<and> (\<forall>m. Failure p m \<notin> set evs))"
proof -
  let ?site = "declarationSite (\<lambda>k. namedEntity k \<or> k = PropertySignature) u sf p"
  from walk_events_at[OF assms(1-3)] obtain evs where evs: "walk u tc opts sf = Inr evs"
    and at: "filter (\<lambda>e. event_loc e = p) evs = emitted (report u tc opts sf (p, n))"
    by blast
  from assms(1) have sf: "kind sf = SourceFile" by (simp add: wellFormed_def)
  from visits_valid[OF assms(2)] have ne: "p \<noteq> []" by simp
  have b: "isDeclaration u sf p = Inr ?site"
    by (rule isDeclaration_declarationSite[OF sf assms(3) ne])
  from getUnwantedTags_total[OF assms(1,3) ne] obtain r where
    r: "getUnwantedTags u tc opts sf p = Inr r" by blast
  have em: "emitted (report u tc opts sf (p, n)) =
      (if ?site then [] else Resolve p #
         (case r of None \<Rightarrow> [] | Some t \<Rightarrow> [Failure p (FAILURE_STRING (node_text n) t)]))"
    using assms(4) b r by (simp add: report_def emitted_def)
  have mem: "e \<in> set evs \<longleftrightarrow> e \<in> set (emitted (report u tc opts sf (p, n)))"
    if "event_loc e = p" for e
    using that at mem_filter_loc[of e evs] by simp
  have 1: "(\<exists>m. Failure p m \<in> set evs) \<longleftrightarrow>
        \<not> ?site \<and> (\<exists>t. getUnwantedTags u tc opts sf p = Inr (Some t))"
    using r by (auto simp: mem em split: option.splits)
  have 2: "filter (\<lambda>f. fst f = p) (failures evs) = [(p, FAILURE_STRING (node_text n) t)]"
    if "\<not> ?site \<and> getUnwantedTags u tc opts sf p = Inr (Some t)" for t
  proof -
    have "filter (\<lambda>f. fst f = p) (failures evs) = failures (emitted (report u tc opts sf (p, n)))"
      by (simp only: failures_filter at)
    with that r show ?thesis by (simp add: em failures_def)
  qed
  have 3: "Resolve p \<in> set evs \<longleftrightarrow> \<not> ?site"
    by (auto simp: mem em)
  have 4: "?site \<longrightarrow> Resolve p \<notin> set evs \<and> (\<forall>m. Failure p m \<notin> set evs)"
    by (auto simp: mem em)
  from evs b 1 2 3 4 show ?thesis by blast
qed

text \<open>
  In the example, the usage of \<^verbatim>\<open>f\<close> in the call is reported once and the name of the
  function declaration is not looked at.
\<close>

theorem walk_reports_usages_witness:
  "wellFormed exampleUtils exampleChecker exampleFile \<and>
   visits exampleFile [1, 0, 0] \<and> node_at exampleFile [1, 0, 0] = Some (ident ''f'') \<and>
   visits exampleFile [0, 0] \<and> node_at exampleFile [0, 0] = Some (ident ''f'') \<and>
   kind (ident ''f'') = Identifier \<and>
   \<not> declarationSite (\<lambda>k. namedEntity k \<or> k = PropertySignature) exampleUtils exampleFile
       [1, 0, 0] \<and>
   declarationSite (\<lambda>k. namedEntity k \<or> k = PropertySignature) exampleUtils exampleFile [0, 0] \<and>
   isDeclaration exampleUtils exampleFile [1, 0, 0] = Inr False \<and>
   isDeclaration exampleUtils exampleFile [0, 0] = Inr True \<and>
   (\<exists>evs. walk exampleUtils exampleChecker exampleOptions exampleFile = Inr evs \<and>
      filter (\<lambda>f. fst f = [1, 0, 0]) (failures evs) =
        [([1, 0, 0], ''Found disallowed tag at f: ask first'')] \<and>
      Resolve [1, 0, 0] \<in> set evs \<and>
      Resolve [0, 0] \<notin> set evs \<and> (\<forall>m. Failure [0, 0] m \<notin> set evs))"
proof -
  have wf: "wellFormed exampleUtils exampleChecker exampleFile"
    by (rule example_wellFormed)
  have v1: "visits exampleFile [1, 0, 0]" and v2: "visits exampleFile [0, 0]"
    by (simp_all add: visits_def example_defs skipped_def)
  have n1: "node_at exampleFile [1, 0, 0] = Some (ident ''f'')"
    and n2: "node_at exampleFile [0, 0] = Some (ident ''f'')"
    by (simp_all add: example_defs)
  have k: "kind (ident ''f'') = Identifier" by (simp add: ident_def)
  have d1: "\<not> declarationSite (\<lambda>k. namedEntity k \<or> k = PropertySignature) exampleUtils
               exampleFile [1, 0, 0]"
    and d2: "declarationSite (\<lambda>k. namedEntity k \<or> k = PropertySignature) exampleUtils
               exampleFile [0, 0]"
    by (simp_all add: declarationSite_def namedEntity_def bindingNode_def exampleFile_def
        ident_def)
  have r: "getUnwantedTags exampleUtils exampleChecker exampleOptions exampleFile [1, 0, 0] =
             Inr (Some ''  ask first  '')"
    by (simp add: example_defs resolver_defs)
  have m: "FAILURE_STRING (node_text (ident ''f'')) ''  ask first  '' =
             ''Found disallowed tag at f: ask first''"
    by (simp add: ident_def message_defs)
  from walk_reports_usages[OF wf v1 n1 k, of exampleOptions] obtain evs where
    evs: "walk exampleUtils exampleChecker exampleOptions exampleFile = Inr evs"
    and i1: "isDeclaration exampleUtils exampleFile [1, 0, 0] = Inr False"
    and a: "filter (\<lambda>f. fst f = [1, 0, 0]) (failures evs) =
        [([1, 0, 0], ''Found disallowed tag at f: ask first'')]"
    and b: "Resolve [1, 0, 0] \<in> set evs"
    using d1 r m by auto
  from walk_reports_usages[OF wf v2 n2 k, of exampleOptions] evs d2
  have "isDeclaration exampleUtils exampleFile [0, 0] = Inr True \<and>
        Resolve [0, 0] \<notin> set evs \<and> (\<forall>m. Failure [0, 0] m \<notin> set evs)"
    by auto
  with wf v1 v2 n1 n2 k d1 d2 i1 evs a b show ?thesis by blast
qed

text \<open>
  As first stated, with the declaration sites of the kinds that the claim lists, the claim
  fails on the name \<^verbatim>\<open>foo\<close> of the property signature of the example: the walk visits
  it, it is no declaration site by those kinds, the resolver would return a match for it,
  and the walk invokes no resolver and reports no failure at its location.
\<close>

theorem walk_property_signature_counterexample:
  "wellFormed exampleUtils propertyChecker exampleFile \<and>
   visits exampleFile [5, 1, 0] \<and>
   node_at exampleFile [5, 1, 0] = Some (ident ''foo'') \<and>
   kind (ident ''foo'') = Identifier \<and>
   \<not> declarationSite namedEntity exampleUtils exampleFile [5, 1, 0] \<and>
   getUnwantedTags exampleUtils propertyChecker exampleOptions exampleFile [5, 1, 0] =
     Inr (Some ''documented'') \<and>
   walk exampleUtils propertyChecker exampleOptions exampleFile =
     Inr [Resolve [1, 0, 0], Failure [1, 0, 0] ''Found disallowed tag at f: ask first'',
          Resolve [3, 0], Failure [3, 0] ''Found disallowed tag at g.'',
          Resolve [4, 0, 0], Failure [4, 0, 0] ''Found disallowed tag at h: merged'',
          Resolve [6, 0, 0, 0], Resolve [6, 0, 0, 1]]"
proof -
  have "visits exampleFile [5, 1, 0]"
    by (simp add: visits_def example_defs skipped_def)
  moreover have "node_at exampleFile [5, 1, 0] = Some (ident ''foo'')"
    by (simp add: exampleFile_def)
  moreover have "kind (ident ''foo'') = Identifier" by (simp add: ident_def)
  moreover have "\<not> declarationSite namedEntity exampleUtils exampleFile [5, 1, 0]"
    by (simp add: declarationSite_def namedEntity_def bindingNode_def exampleFile_def ident_def)
  moreover have
    "getUnwantedTags exampleUtils propertyChecker exampleOptions exampleFile [5, 1, 0] =
       Inr (Some ''documented'')"
    by (simp add: example_defs propertyChecker_def symP_def resolver_defs)
  moreover have "walk exampleUtils propertyChecker exampleOptions exampleFile =
     Inr [Resolve [1, 0, 0], Failure [1, 0, 0] ''Found disallowed tag at f: ask first'',
          Resolve [3, 0], Failure [3, 0] ''Found disallowed tag at g.'',
          Resolve [4, 0, 0], Failure [4, 0, 0] ''Found disallowed tag at h: merged'',
          Resolve [6, 0, 0, 0], Resolve [6, 0, 0, 1]]"
    by (simp add: walk_def example_defs propertyChecker_def symP_def skipped_def resolver_defs
        message_defs)
  ultimately show ?thesis using property_wellFormed by simp
qed

text \<open>
  Claim C8. At an import declaration, an import-equals declaration, an export declaration
  or an export assignment the walk does not descend: no location strictly below such a
  node is visited, the resolver is invoked on none and no failure is reported at one.
\<close>

theorem skipped_subtree_silent:
  assumes "wellFormed u tc sf" and "node_at sf p = Some n"
    and "kind n \<in> {ImportDeclaration, ImportEqualsDeclaration, ExportDeclaration, ExportAssignment}"
  shows "\<exists>evs. walk u tc opts sf = Inr evs \<and>
           (\<forall>q. strict_prefix p q \<longrightarrow>
                \<not> visits sf q \<and> Resolve q \<notin> set evs \<and> (\<forall>m. Failure q m \<notin> set evs))"
proof -
  from assms(3) have sk: "skipped (kind n)" by (auto simp: skipped_def)
  from assms(1) have sf: "kind sf = SourceFile" by (simp add: wellFormed_def)
  have ne: "p \<noteq> []"
  proof
    assume "p = []"
    with assms(2) have "n = sf" by simp
    with sf assms(3) show False by simp
  qed
  have nv: "\<not> visits sf q" if "strict_prefix p q" for q
    using visits_open[of sf q p] that ne assms(2) sk by auto
  obtain evs where evs: "walk u tc opts sf = Inr evs"
    using walk_total[OF assms(1)] by blast
  have "event_loc e \<noteq> q" if "e \<in> set evs" "strict_prefix p q" for e q
    using walk_events_visited[OF assms(1) evs that(1)] nv[OF that(2)] by auto
  then have "Resolve q \<notin> set evs \<and> (\<forall>m. Failure q m \<notin> set evs)" if "strict_prefix p q" for q
    using that by fastforce
  with nv evs show ?thesis by blast
qed

text \<open>In the example, nothing happens at the \<^verbatim>\<open>g\<close> of the import declaration.\<close>

theorem skipped_subtree_silent_witness:
  "wellFormed exampleUtils exampleChecker exampleFile \<and>
   node_at exampleFile [2] =
     Some (Node ImportDeclaration [] None None None
             [Node (OtherKind 1) [] (Some 0) None None [ident ''g'']]) \<and>
   strict_prefix [2 :: nat] [2, 0, 0] \<and> node_at exampleFile [2, 0, 0] = Some (ident ''g'') \<and>
   (\<exists>evs. walk exampleUtils exampleChecker exampleOptions exampleFile = Inr evs \<and>
      \<not> visits exampleFile [2, 0, 0] \<and> Resolve [2, 0, 0] \<notin> set evs \<and>
      (\<forall>m. Failure [2, 0, 0] m \<notin> set evs))"
proof -
  have wf: "wellFormed exampleUtils exampleChecker exampleFile"
    by (rule example_wellFormed)
  have n: "node_at exampleFile [2] =
     Some (Node ImportDeclaration [] None None None
             [Node (OtherKind 1) [] (Some 0) None None [ident ''g'']])"
    and g: "node_at exampleFile [2, 0, 0] = Some (ident ''g'')"
    by (simp_all add: exampleFile_def)
  have s: "strict_prefix [2 :: nat] [2, 0, 0]" by (simp add: strict_prefix_def)
  from skipped_subtree_silent[OF wf n, of exampleOptions] s
  have "\<exists>evs. walk exampleUtils exampleChecker exampleOptions exampleFile = Inr evs \<and>
      \<not> visits exampleFile [2, 0, 0] \<and> Resolve [2, 0, 0] \<notin> set evs \<and>
      (\<forall>m. Failure [2, 0, 0] m \<notin> set evs)"
    by auto
  with wf n g s show ?thesis by blast
qed

text \<open>
  Claim C10. For rule arguments with fewer than two elements \<open>parseOptions\<close> returns the
  empty list of tags; it reads the element at index 1 only, whatever the one at index 0.
  With the empty list every match test fails, so that a walk that returns has reported no
  failure, whatever the file and the type checker; on a well-formed file the walk returns,
  and \<open>applyWithProgram\<close> returns no failure.
\<close>

theorem empty_tag_list_no_failures:
  assumes "length args < 2" and "wellFormed u tc sf"
  shows "parseOptions (Some args) = Inr \<lparr>opt_tags = []\<rparr> \<and>
         (\<forall>a b rest. parseOptions (Some (a # rest)) = parseOptions (Some (b # rest))) \<and>
         (\<forall>u' tc' sf' evs. walk u' tc' \<lparr>opt_tags = []\<rparr> sf' = Inr evs \<longrightarrow> failures evs = []) \<and>
         (\<forall>ts sg d. findUnwantedTagsTag \<lparr>opt_tags = []\<rparr> ts = None \<and>
                     getSignatureUnwantedTags u \<lparr>opt_tags = []\<rparr> sg = None \<and>
                     getUnwantedTagsFromDeclaration u \<lparr>opt_tags = []\<rparr> d = None) \<and>
         applyWithProgram u tc (Some args) sf = Inr []"
proof -
  obtain evs where evs: "walk u tc \<lparr>opt_tags = []\<rparr> sf = Inr evs"
    using walk_total[OF assms(2)] by blast
  then have "failures evs = []" by (intro walk_empty) simp_all
  with evs have "applyWithProgram u tc (Some args) sf = Inr []"
    by (simp add: applyWithProgram_def parseOptions_short[OF assms(1)])
  moreover have "failures evs' = []" if "walk u' tc' \<lparr>opt_tags = []\<rparr> sf' = Inr evs'"
    for u' tc' sf' evs'
    using walk_empty[OF _ that] by simp
  ultimately show ?thesis
    using parseOptions_short[OF assms(1)] parseOptions_index0
    by (simp add: findUnwantedTagsTag_empty getSignatureUnwantedTags_empty
        getUnwantedTagsFromDeclaration_empty)
qed

text \<open>
  In the example, the rule arguments \<^verbatim>\<open>[true]\<close> give no failure, and the documented
  arguments \<^verbatim>\<open>[true, ["X"]]\<close> give three.
\<close>

theorem empty_tag_list_no_failures_witness:
  "length [Bool True] < 2 \<and> wellFormed exampleUtils exampleChecker exampleFile \<and>
   parseOptions (Some [Bool True]) = Inr \<lparr>opt_tags = []\<rparr> \<and>
   applyWithProgram exampleUtils exampleChecker (Some [Bool True]) exampleFile = Inr [] \<and>
   applyWithProgram exampleUtils exampleChecker (Some [Bool True, Arr [''X'']]) exampleFile =
     Inr [([1, 0, 0], ''Found disallowed tag at f: ask first''),
          ([3, 0], ''Found disallowed tag at g.''),
          ([4, 0, 0], ''Found disallowed tag at h: merged'')]"
proof -
  have l: "length [Bool True] < 2" by simp
  have wf: "wellFormed exampleUtils exampleChecker exampleFile"
    by (rule example_wellFormed)
  have "applyWithProgram exampleUtils exampleChecker (Some [Bool True, Arr [''X'']]) exampleFile =
     Inr [([1, 0, 0], ''Found disallowed tag at f: ask first''),
          ([3, 0], ''Found disallowed tag at g.''),
          ([4, 0, 0], ''Found disallowed tag at h: merged'')]"
    using example_walk
    by (simp add: applyWithProgram_def parseOptions_def exampleOptions_def failures_def)
  with empty_tag_list_no_failures[OF l wf] l wf show ?thesis by simp
qed

text \<open>
  Claim C6. The message is \<^verbatim>\<open>Found disallowed tag at\<close>, the text of the identifier, and then
  a full stop when the text of the match is empty, and otherwise a colon, a space and the
  text of the match without the white space at its two ends. Every failure that the walk
  reports has such a message, for the identifier at its location and the text that the
  resolver returned for it.
\<close>

theorem failure_message_format:
  assumes "wellFormed u tc sf"
  shows "(\<forall>nm. FAILURE_STRING nm [] = ''Found disallowed tag at '' @ nm @ ''.'') \<and>
         (\<forall>nm t. t \<noteq> [] \<longrightarrow>
            FAILURE_STRING nm t = ''Found disallowed tag at '' @ nm @ '': '' @ trim t) \<and>
         (\<forall>t. \<exists>a b. t = a @ trim t @ b \<and>
            (\<forall>c \<in> set a. isWhiteSpace c) \<and> (\<forall>c \<in> set b. isWhiteSpace c) \<and>
            (trim t \<noteq> [] \<longrightarrow> \<not> isWhiteSpace (hd (trim t)) \<and> \<not> isWhiteSpace (last (trim t)))) \<and>
         (\<exists>evs. walk u tc opts sf = Inr evs \<and>
            (\<forall>p m. (p, m) \<in> set (failures evs) \<longrightarrow>
               (\<exists>n t. node_at sf p = Some n \<and> kind n = Identifier \<and>
                  getUnwantedTags u tc opts sf p = Inr (Some t) \<and>
                  m = ''Found disallowed tag at '' @ node_text n @
                        (if t = [] then ''.'' else '': '' @ trim t))))"
proof -
  obtain evs where evs: "walk u tc opts sf = Inr evs"
    using walk_total[OF assms] by blast
  have "\<exists>n t. node_at sf p = Some n \<and> kind n = Identifier \<and>
                  getUnwantedTags u tc opts sf p = Inr (Some t) \<and>
                  m = ''Found disallowed tag at '' @ node_text n @
                        (if t = [] then ''.'' else '': '' @ trim t)"
    if "(p, m) \<in> set (failures evs)" for p m
  proof -
    from that have "Failure p m \<in> set evs" by (simp add: failures_mem)
    from walk_events_visited[OF assms evs this] obtain n where
      n: "node_at sf p = Some n" "Failure p m \<in> set (emitted (report u tc opts sf (p, n)))"
      by auto
    from report_Failure[OF n(2)] n(1) show ?thesis
      by (auto simp: FAILURE_STRING_def)
  qed
  with evs have "\<exists>evs. walk u tc opts sf = Inr evs \<and>
            (\<forall>p m. (p, m) \<in> set (failures evs) \<longrightarrow>
               (\<exists>n t. node_at sf p = Some n \<and> kind n = Identifier \<and>
                  getUnwantedTags u tc opts sf p = Inr (Some t) \<and>
                  m = ''Found disallowed tag at '' @ node_text n @
                        (if t = [] then ''.'' else '': '' @ trim t)))"
    by blast
  moreover have "\<forall>nm. FAILURE_STRING nm [] = ''Found disallowed tag at '' @ nm @ ''.''"
    by (simp add: FAILURE_STRING_def)
  moreover have "\<forall>nm t. t \<noteq> [] \<longrightarrow>
            FAILURE_STRING nm t = ''Found disallowed tag at '' @ nm @ '': '' @ trim t"
    by (simp add: FAILURE_STRING_def)
  ultimately show ?thesis using trim_spec by blast
qed

text \<open>The two forms of the message, and the failures of the example.\<close>

theorem failure_message_format_witness:
  "wellFormed exampleUtils exampleChecker exampleFile \<and>
   ''  ask first  '' \<noteq> [] \<and>
   FAILURE_STRING ''f'' ''  ask first  '' = ''Found disallowed tag at f: ask first'' \<and>
   FAILURE_STRING ''g'' [] = ''Found disallowed tag at g.'' \<and>
   (\<exists>evs. walk exampleUtils exampleChecker exampleOptions exampleFile = Inr evs \<and>
      ([3, 0], ''Found disallowed tag at g.'') \<in> set (failures evs) \<and>
      (\<forall>p m. (p, m) \<in> set (failures evs) \<longrightarrow>
         (\<exists>n t. node_at exampleFile p = Some n \<and> kind n = Identifier \<and>
            getUnwantedTags exampleUtils exampleChecker exampleOptions exampleFile p =
              Inr (Some t) \<and>
            m = ''Found disallowed tag at '' @ node_text n @
                  (if t = [] then ''.'' else '': '' @ trim t))))"
proof -
  have wf: "wellFormed exampleUtils exampleChecker exampleFile"
    by (rule example_wellFormed)
  note f = failure_message_format[OF wf, of exampleOptions]
  have t: "trim ''  ask first  '' = ''ask first''" by (simp add: message_defs)
  from f have "FAILURE_STRING ''f'' ''  ask first  '' =
                 ''Found disallowed tag at '' @ ''f'' @ '': '' @ trim ''  ask first  ''"
    by blast
  with t have 1: "FAILURE_STRING ''f'' ''  ask first  '' = ''Found disallowed tag at f: ask first''"
    by simp
  from f have "FAILURE_STRING ''g'' [] = ''Found disallowed tag at '' @ ''g'' @ ''.''"
    by blast
  then have 2: "FAILURE_STRING ''g'' [] = ''Found disallowed tag at g.''" by simp
  from f obtain evs where evs: "walk exampleUtils exampleChecker exampleOptions exampleFile = Inr evs"
    and all: "\<forall>p m. (p, m) \<in> set (failures evs) \<longrightarrow>
         (\<exists>n t. node_at exampleFile p = Some n \<and> kind n = Identifier \<and>
            getUnwantedTags exampleUtils exampleChecker exampleOptions exampleFile p =
              Inr (Some t) \<and>
            m = ''Found disallowed tag at '' @ node_text n @
                  (if t = [] then ''.'' else '': '' @ trim t))"
    by blast
  from evs have "([3, 0], ''Found disallowed tag at g.'') \<in> set (failures evs)"
    using example_walk by (auto simp: failures_def)
  with wf 1 2 evs all show ?thesis by blast
qed

subsection \<open>The resolver\<close>




lemma getCallExpresion_callTarget:
  "getCallExpresion sf p = Inr (Some c) \<longleftrightarrow> callTarget sf p c"
proof (cases "p = []")
  case True
  then show ?thesis by (simp add: getCallExpresion_def callTarget_def callee_def)
next
  case ne: False
  show ?thesis
  proof (cases "node_at sf (butlast p)")
    case None
    with ne show ?thesis
      by (auto simp add: getCallExpresion_def callTarget_def callee_def)
  next
    case (Some m)
    show ?thesis
    proof (cases "kind m = PropertyAccessExpression \<and> fills p (name m)")
      case True
      with ne Some show ?thesis
        by (cases "butlast p = []")
          (auto simp add: getCallExpresion_def callTarget_def callee_def bindE_eq_Inr
            split: option.splits)
    next
      case False
      with ne Some show ?thesis
        by (auto simp add: getCallExpresion_def callTarget_def callee_def split: option.splits)
    qed
  qed
qed

lemma find_None_set: "List.find P xs = None \<longleftrightarrow> (\<forall>x \<in> set xs. \<not> P x)"
  by (induction xs) auto

lemma getUnwantedTags_called:
  assumes "callTarget sf p c"
  shows "getUnwantedTags u tc opts sf p =
           (case getSignatureUnwantedTags u opts (getResolvedSignature tc c) of
              Some result \<Rightarrow> Inr (Some result)
            | None \<Rightarrow> symbolPath u tc opts sf p True)"
  using assms
  by (auto simp: getUnwantedTags_def symbolPath_def getCallExpresion_callTarget[symmetric]
      bindE_def split: option.splits sum.splits)

lemma getUnwantedTags_not_called:
  assumes "kind sf = SourceFile" "node_at sf p = Some n" "p \<noteq> []" "\<forall>c. \<not> callTarget sf p c"
  shows "getUnwantedTags u tc opts sf p = symbolPath u tc opts sf p False"
proof -
  from getCallExpresion_total[OF assms(1-3)] obtain ce where ce: "getCallExpresion sf p = Inr ce"
    by blast
  with assms(4) have "ce = None"
    by (cases ce) (auto simp: getCallExpresion_callTarget)
  with ce show ?thesis
    by (auto simp: getUnwantedTags_def symbolPath_def bindE_def split: option.splits sum.splits)
qed

text \<open>
  Claim C2. \<open>getCallExpresion\<close> returns the call of which the identifier is the call
  target (any child of a tagged template counts as its callee), and nothing for any other
  identifier. For a call target, the tags of the resolved signature of that call are
  looked at first: those that \<^verbatim>\<open>getJsDocTags\<close> of the signature returns or, without that
  method, those of the comments of the declaration of the signature. When one of them has
  a configured name, the text of the first such tag is the result (the empty string when
  it has none), whatever the type checker answers about symbols. The result is that of
  the symbol path only when the call has no resolved signature, when none of the tags of
  the signature has a configured name, or when the identifier is no call target.
\<close>

theorem call_target_signature_first:
  "(getCallExpresion sf p = Inr (Some c) \<longleftrightarrow> callTarget sf p c) \<and>
   (callTarget sf p c \<and> getResolvedSignature tc c = Some sg \<and>
    sig_getJsDocTags sg = Some ts \<and>
    List.find (\<lambda>t. tag_name t \<in> set (opt_tags opts)) ts = Some tag \<longrightarrow>
      getUnwantedTags u tc opts sf p =
        Inr (Some (case tag_text tag of None \<Rightarrow> [] | Some x \<Rightarrow> x))) \<and>
   (callTarget sf p c \<and> getResolvedSignature tc c = Some sg \<and>
    sig_getJsDocTags sg = None \<and> sig_declaration sg = Some d \<and>
    List.find (\<lambda>t. tagName_text t \<in> set (opt_tags opts))
      (concat (map (\<lambda>c. case tags c of None \<Rightarrow> [] | Some ts \<Rightarrow> ts) (getJsDoc u d))) =
      Some doc \<longrightarrow>
      getUnwantedTags u tc opts sf p =
        Inr (Some (case comment doc of None \<Rightarrow> [] | Some x \<Rightarrow> x))) \<and>
   (callTarget sf p c \<and> getResolvedSignature tc c = None \<longrightarrow>
      getUnwantedTags u tc opts sf p = symbolPath u tc opts sf p True) \<and>
   (callTarget sf p c \<and> getResolvedSignature tc c = Some sg \<and>
    sig_getJsDocTags sg = Some ts \<and> (\<forall>t \<in> set ts. tag_name t \<notin> set (opt_tags opts)) \<longrightarrow>
      getUnwantedTags u tc opts sf p = symbolPath u tc opts sf p True) \<and>
   (callTarget sf p c \<and> getResolvedSignature tc c = Some sg \<and>
    sig_getJsDocTags sg = None \<and>
    (sig_declaration sg = None \<or>
     (sig_declaration sg = Some d \<and>
      (\<forall>t \<in> set (concat (map (\<lambda>c. case tags c of None \<Rightarrow> [] | Some ts \<Rightarrow> ts) (getJsDoc u d))).
         tagName_text t \<notin> set (opt_tags opts)))) \<longrightarrow>
      getUnwantedTags u tc opts sf p = symbolPath u tc opts sf p True) \<and>
   (kind sf = SourceFile \<and> node_at sf p = Some n \<and> p \<noteq> [] \<and> (\<forall>c'. \<not> callTarget sf p c') \<longrightarrow>
      getUnwantedTags u tc opts sf p = symbolPath u tc opts sf p False)"
proof -
  have 1: "getCallExpresion sf p = Inr (Some c) \<longleftrightarrow> callTarget sf p c"
    by (rule getCallExpresion_callTarget)
  have 2: "getUnwantedTags u tc opts sf p =
        Inr (Some (case tag_text tag of None \<Rightarrow> [] | Some x \<Rightarrow> x))"
    if "callTarget sf p c" "getResolvedSignature tc c = Some sg" "sig_getJsDocTags sg = Some ts"
      "List.find (\<lambda>t. tag_name t \<in> set (opt_tags opts)) ts = Some tag"
  proof -
    have "findUnwantedTagsTag opts ts = Some (case tag_text tag of None \<Rightarrow> [] | Some x \<Rightarrow> x)"
      using that(4) by (induction ts) (auto split: if_splits)
    with that(2,3) show ?thesis
      by (simp add: getUnwantedTags_called[OF that(1)] getSignatureUnwantedTags_def)
  qed
  have 3: "getUnwantedTags u tc opts sf p =
        Inr (Some (case comment doc of None \<Rightarrow> [] | Some x \<Rightarrow> x))"
    if "callTarget sf p c" "getResolvedSignature tc c = Some sg" "sig_getJsDocTags sg = None"
      "sig_declaration sg = Some d"
      "List.find (\<lambda>t. tagName_text t \<in> set (opt_tags opts))
         (concat (map (\<lambda>c. case tags c of None \<Rightarrow> [] | Some ts \<Rightarrow> ts) (getJsDoc u d))) = Some doc"
    using that(2-5)
    by (simp add: getUnwantedTags_called[OF that(1)] getSignatureUnwantedTags_def
        getUnwantedTagsFromDeclaration_def comments_find)
  have 4: "getUnwantedTags u tc opts sf p = symbolPath u tc opts sf p True"
    if "callTarget sf p c" "getResolvedSignature tc c = None"
    using that(2) by (simp add: getUnwantedTags_called[OF that(1)] getSignatureUnwantedTags_def)
  have 5: "getUnwantedTags u tc opts sf p = symbolPath u tc opts sf p True"
    if "callTarget sf p c" "getResolvedSignature tc c = Some sg" "sig_getJsDocTags sg = Some ts"
      "\<forall>t \<in> set ts. tag_name t \<notin> set (opt_tags opts)"
  proof -
    have "findUnwantedTagsTag opts ts = None"
      using that(4) by (induction ts) auto
    with that(2,3) show ?thesis
      by (simp add: getUnwantedTags_called[OF that(1)] getSignatureUnwantedTags_def)
  qed
  have 6: "getUnwantedTags u tc opts sf p = symbolPath u tc opts sf p True"
    if "callTarget sf p c" "getResolvedSignature tc c = Some sg" "sig_getJsDocTags sg = None"
      "sig_declaration sg = None \<or>
       (sig_declaration sg = Some d \<and>
        (\<forall>t \<in> set (concat (map (\<lambda>c. case tags c of None \<Rightarrow> [] | Some ts \<Rightarrow> ts) (getJsDoc u d))).
           tagName_text t \<notin> set (opt_tags opts)))"
  proof -
    from that(4) have "getSignatureUnwantedTags u opts (Some sg) = None"
    proof
      assume "sig_declaration sg = None"
      with that(3) show ?thesis by (simp add: getSignatureUnwantedTags_def)
    next
      assume a: "sig_declaration sg = Some d \<and>
        (\<forall>t \<in> set (concat (map (\<lambda>c. case tags c of None \<Rightarrow> [] | Some ts \<Rightarrow> ts) (getJsDoc u d))).
           tagName_text t \<notin> set (opt_tags opts))"
      then have "List.find (\<lambda>t. tagName_text t \<in> set (opt_tags opts))
         (concat (map (\<lambda>c. case tags c of None \<Rightarrow> [] | Some ts \<Rightarrow> ts) (getJsDoc u d))) = None"
        by (simp add: find_None_set)
      with a that(3) show ?thesis
        by (simp add: getSignatureUnwantedTags_def getUnwantedTagsFromDeclaration_def
            comments_find)
    qed
    with that(2) show ?thesis by (simp add: getUnwantedTags_called[OF that(1)])
  qed
  have 7: "getUnwantedTags u tc opts sf p = symbolPath u tc opts sf p False"
    if "kind sf = SourceFile" "node_at sf p = Some n" "p \<noteq> []" "\<forall>c'. \<not> callTarget sf p c'"
    using that by (rule getUnwantedTags_not_called)
  from 1 2 3 4 5 6 7 show ?thesis by blast
qed

text \<open>
  In the example: the tag of the signature of \<^verbatim>\<open>f()\<close> is found, by \<^verbatim>\<open>getJsDocTags\<close> and
  in the comments of the declaration; \<^verbatim>\<open>o.m()\<close> has no signature, the signature of
  \<^verbatim>\<open>h()\<close> has no tags, and that of \<^verbatim>\<open>f()\<close> has no tag \<^verbatim>\<open>Y\<close>, so that the symbol path
  decides; \<^verbatim>\<open>g\<close> is no call target.
\<close>

theorem call_target_signature_first_witness:
  "callTarget exampleFile [1, 0, 0] [1, 0] \<and>
   getCallExpresion exampleFile [1, 0, 0] = Inr (Some [1, 0]) \<and>
   getResolvedSignature exampleChecker [1, 0] =
     Some \<lparr>sig_getJsDocTags = Some [\<lparr>tag_name = ''X'', tag_text = Some ''  ask first  ''\<rparr>],
           sig_declaration = None\<rparr> \<and>
   getUnwantedTags exampleUtils exampleChecker exampleOptions exampleFile [1, 0, 0] =
     Inr (Some ''  ask first  '') \<and>
   getResolvedSignature compatChecker [1, 0] =
     Some \<lparr>sig_getJsDocTags = None, sig_declaration = Some statementDecl\<rparr> \<and>
   getUnwantedTags exampleUtils compatChecker exampleOptions exampleFile [1, 0, 0] =
     Inr (Some []) \<and>
   callTarget exampleFile [6, 0, 0, 1] [6, 0] \<and>
   getResolvedSignature exampleChecker [6, 0] = None \<and>
   getUnwantedTags exampleUtils exampleChecker exampleOptions exampleFile [6, 0, 0, 1] =
     Inr None \<and>
   callTarget exampleFile [4, 0, 0] [4, 0] \<and>
   getResolvedSignature exampleChecker [4, 0] =
     Some \<lparr>sig_getJsDocTags = Some [], sig_declaration = None\<rparr> \<and>
   getUnwantedTags exampleUtils exampleChecker exampleOptions exampleFile [4, 0, 0] =
     Inr (Some ''merged'') \<and>
   getResolvedSignature compatChecker [4, 0] =
     Some \<lparr>sig_getJsDocTags = None, sig_declaration = None\<rparr> \<and>
   getUnwantedTags exampleUtils compatChecker exampleOptions exampleFile [4, 0, 0] =
     Inr (Some ''merged'') \<and>
   getUnwantedTags exampleUtils exampleChecker \<lparr>opt_tags = [''Y'']\<rparr> exampleFile [1, 0, 0] =
     Inr None \<and>
   kind exampleFile = SourceFile \<and> node_at exampleFile [3, 0] = Some (ident ''g'') \<and>
   [3, 0 :: nat] \<noteq> [] \<and> (\<forall>c. \<not> callTarget exampleFile [3, 0] c) \<and>
   getUnwantedTags exampleUtils exampleChecker exampleOptions exampleFile [3, 0] =
     Inr (Some [])"
proof -
  let ?x = "\<lparr>tag_name = ''X'', tag_text = Some ''  ask first  ''\<rparr>"
  let ?sg = "\<lparr>sig_getJsDocTags = Some [?x], sig_declaration = None\<rparr>"
  let ?sd = "\<lparr>sig_getJsDocTags = None, sig_declaration = Some statementDecl\<rparr>"
  let ?se = "\<lparr>sig_getJsDocTags = Some ([] :: JSDocTagInfo list), sig_declaration = None\<rparr>"
  let ?sn = "\<lparr>sig_getJsDocTags = None, sig_declaration = None\<rparr>"
  let ?doc = "\<lparr>tagName_text = ''X'', comment = None\<rparr>"
  have c1: "getCallExpresion exampleFile [1, 0, 0] = Inr (Some [1, 0])"
    and c6: "getCallExpresion exampleFile [6, 0, 0, 1] = Inr (Some [6, 0])"
    and c4: "getCallExpresion exampleFile [4, 0, 0] = Inr (Some [4, 0])"
    by (simp_all add: example_defs resolver_defs)
  from c1 call_target_signature_first[where sf = exampleFile and p = "[1, 0, 0]" and c = "[1, 0]"]
  have t1: "callTarget exampleFile [1, 0, 0] [1, 0]" by blast
  from c6 call_target_signature_first[where sf = exampleFile and p = "[6, 0, 0, 1]"
      and c = "[6, 0]"]
  have t6: "callTarget exampleFile [6, 0, 0, 1] [6, 0]" by blast
  from c4 call_target_signature_first[where sf = exampleFile and p = "[4, 0, 0]" and c = "[4, 0]"]
  have t4: "callTarget exampleFile [4, 0, 0] [4, 0]" by blast
  have s1: "getResolvedSignature exampleChecker [1, 0] = Some ?sg"
    and s6: "getResolvedSignature exampleChecker [6, 0] = None"
    and s4: "getResolvedSignature exampleChecker [4, 0] = Some ?se"
    by (simp_all add: exampleChecker_def)
  have d1: "getResolvedSignature compatChecker [1, 0] = Some ?sd"
    and d4: "getResolvedSignature compatChecker [4, 0] = Some ?sn"
    by (simp_all add: compatChecker_def)
  have f1: "List.find (\<lambda>t. tag_name t \<in> set (opt_tags exampleOptions)) [?x] = Some ?x"
    by (simp add: exampleOptions_def)
  from call_target_signature_first[where sf = exampleFile and p = "[1, 0, 0]" and c = "[1, 0]"
      and tc = exampleChecker and sg = ?sg and ts = "[?x]" and tag = ?x
      and opts = exampleOptions and u = exampleUtils] t1 s1 f1
  have r1: "getUnwantedTags exampleUtils exampleChecker exampleOptions exampleFile [1, 0, 0] =
     Inr (Some ''  ask first  '')" by simp
  have f2: "List.find (\<lambda>t. tagName_text t \<in> set (opt_tags exampleOptions))
      (concat (map (\<lambda>c. case tags c of None \<Rightarrow> [] | Some ts \<Rightarrow> ts)
         (getJsDoc exampleUtils statementDecl))) = Some ?doc"
    by (simp add: exampleOptions_def exampleUtils_def)
  from call_target_signature_first[where sf = exampleFile and p = "[1, 0, 0]" and c = "[1, 0]"
      and tc = compatChecker and sg = ?sd and d = statementDecl and doc = ?doc
      and opts = exampleOptions and u = exampleUtils] t1 d1 f2
  have r2: "getUnwantedTags exampleUtils compatChecker exampleOptions exampleFile [1, 0, 0] =
     Inr (Some [])" by simp
  from call_target_signature_first[where sf = exampleFile and p = "[6, 0, 0, 1]"
      and c = "[6, 0]" and tc = exampleChecker and opts = exampleOptions and u = exampleUtils]
    t6 s6
  have "getUnwantedTags exampleUtils exampleChecker exampleOptions exampleFile [6, 0, 0, 1] =
     symbolPath exampleUtils exampleChecker exampleOptions exampleFile [6, 0, 0, 1] True"
    by blast
  then have r3:
    "getUnwantedTags exampleUtils exampleChecker exampleOptions exampleFile [6, 0, 0, 1] =
     Inr None"
    by (simp add: example_defs path_defs)
  from call_target_signature_first[where sf = exampleFile and p = "[4, 0, 0]" and c = "[4, 0]"
      and tc = exampleChecker and sg = ?se and ts = "[]"
      and opts = exampleOptions and u = exampleUtils] t4 s4
  have "getUnwantedTags exampleUtils exampleChecker exampleOptions exampleFile [4, 0, 0] =
     symbolPath exampleUtils exampleChecker exampleOptions exampleFile [4, 0, 0] True"
    by simp
  then have r4:
    "getUnwantedTags exampleUtils exampleChecker exampleOptions exampleFile [4, 0, 0] =
     Inr (Some ''merged'')"
    by (simp add: example_defs path_defs)
  from call_target_signature_first[where sf = exampleFile and p = "[4, 0, 0]" and c = "[4, 0]"
      and tc = compatChecker and sg = ?sn
      and opts = exampleOptions and u = exampleUtils] t4 d4
  have "getUnwantedTags exampleUtils compatChecker exampleOptions exampleFile [4, 0, 0] =
     symbolPath exampleUtils compatChecker exampleOptions exampleFile [4, 0, 0] True"
    by simp
  then have r5:
    "getUnwantedTags exampleUtils compatChecker exampleOptions exampleFile [4, 0, 0] =
     Inr (Some ''merged'')"
    by (simp add: example_defs compatChecker_def path_defs)
  have "\<forall>t \<in> set [?x]. tag_name t \<notin> set (opt_tags \<lparr>opt_tags = [''Y'']\<rparr>)" by simp
  with call_target_signature_first[where sf = exampleFile and p = "[1, 0, 0]" and c = "[1, 0]"
      and tc = exampleChecker and sg = ?sg and ts = "[?x]"
      and opts = "\<lparr>opt_tags = [''Y'']\<rparr>" and u = exampleUtils] t1 s1
  have "getUnwantedTags exampleUtils exampleChecker \<lparr>opt_tags = [''Y'']\<rparr> exampleFile [1, 0, 0] =
     symbolPath exampleUtils exampleChecker \<lparr>opt_tags = [''Y'']\<rparr> exampleFile [1, 0, 0] True"
    by simp
  then have r6:
    "getUnwantedTags exampleUtils exampleChecker \<lparr>opt_tags = [''Y'']\<rparr> exampleFile [1, 0, 0] =
     Inr None"
    by (simp add: example_defs path_defs)
  have k: "kind exampleFile = SourceFile" and n: "node_at exampleFile [3, 0] = Some (ident ''g'')"
    by (simp_all add: exampleFile_def)
  have ne: "[3, 0 :: nat] \<noteq> []" by simp
  have nc: "\<forall>c. \<not> callTarget exampleFile [3, 0] c"
    by (simp add: callTarget_def callee_def exampleFile_def ident_def parent_def)
  from call_target_signature_first[where sf = exampleFile and p = "[3, 0]"
      and tc = exampleChecker and n = "ident ''g''"
      and opts = exampleOptions and u = exampleUtils] k n ne nc
  have "getUnwantedTags exampleUtils exampleChecker exampleOptions exampleFile [3, 0] =
     symbolPath exampleUtils exampleChecker exampleOptions exampleFile [3, 0] False"
    by blast
  then have r7: "getUnwantedTags exampleUtils exampleChecker exampleOptions exampleFile [3, 0] =
     Inr (Some [])"
    by (simp add: example_defs path_defs)
  from t1 c1 s1 r1 d1 r2 t6 s6 r3 t4 s4 r4 d4 r5 r6 k n ne nc r7 show ?thesis by blast
qed

text \<open>
  Claim C7. On the symbol path, when the symbol has the alias flag, the check for a
  function or a method and the reading of the tags are done on the symbol that
  \<^verbatim>\<open>getAliasedSymbol\<close> returns for it, not on the alias.
\<close>

theorem alias_unwrapped_first:
  assumes "getCallExpresion sf p = Inr ce"
    and "(case ce of None \<Rightarrow> None
          | Some c \<Rightarrow> getSignatureUnwantedTags u opts (getResolvedSignature tc c)) = None"
    and "symbolOf u tc sf p = Inr (Some s)"
    and "isSymbolFlagSet s Alias"
  shows "getUnwantedTags u tc opts sf p =
           (case getAliasedSymbol tc s of
              None \<Rightarrow> Inr None
            | Some target \<Rightarrow>
                if ce \<noteq> None \<and> isFunctionOrMethod (declarations target) then Inr None
                else getSymbolUnwantedTags u opts target)"
  using assms by (simp add: getUnwantedTags_def unalias_def)

text \<open>
  In the example, \<^verbatim>\<open>g\<close> is an alias without tags, and the match is that of the variable
  it stands for.
\<close>

theorem alias_unwrapped_first_witness:
  "getCallExpresion exampleFile [3, 0] = Inr None \<and>
   symbolOf exampleUtils exampleChecker exampleFile [3, 0] = Inr (Some symG) \<and>
   isSymbolFlagSet symG Alias \<and>
   getAliasedSymbol exampleChecker symG = Some symT \<and>
   getSymbolUnwantedTags exampleUtils exampleOptions symG = Inr None \<and>
   getSymbolUnwantedTags exampleUtils exampleOptions symT = Inr (Some []) \<and>
   getUnwantedTags exampleUtils exampleChecker exampleOptions exampleFile [3, 0] = Inr (Some [])"
proof -
  have c: "getCallExpresion exampleFile [3, 0] = Inr None"
    and s: "symbolOf exampleUtils exampleChecker exampleFile [3, 0] = Inr (Some symG)"
    by (simp_all add: exampleFile_def ident_def exampleChecker_def exampleUtils_def resolver_defs)
  have n: "(case None :: loc option of None \<Rightarrow> None
     | Some c \<Rightarrow> getSignatureUnwantedTags exampleUtils exampleOptions
         (getResolvedSignature exampleChecker c)) = None" by simp
  have f: "isSymbolFlagSet symG Alias"
    by (simp add: symG_def isSymbolFlagSet_def Alias_def)
  have a: "getAliasedSymbol exampleChecker symG = Some symT"
    by (simp add: exampleChecker_def)
  have g: "getSymbolUnwantedTags exampleUtils exampleOptions symG = Inr None"
    and t: "getSymbolUnwantedTags exampleUtils exampleOptions symT = Inr (Some [])"
    by (simp_all add: example_defs getSymbolUnwantedTags_def getUnwantedTagsFromDeclarations_def
        documentedNode_def getUnwantedTagsFromDeclaration_def)
  from alias_unwrapped_first[OF c n s f] a t
  have "getUnwantedTags exampleUtils exampleChecker exampleOptions exampleFile [3, 0] =
          Inr (Some [])" by simp
  with c s f a g t show ?thesis by blast
qed

text \<open>
  Claim C4, amended. For a call target whose signature has no configured tag, when the
  first declaration of the symbol of the symbol path (after an alias is followed) is a
  function declaration, a function expression, a method declaration or a method signature,
  the resolver returns no match, whatever the tags of the symbol.
\<close>

theorem call_target_function_aborts:
  assumes "getCallExpresion sf p = Inr (Some c)"
    and "getSignatureUnwantedTags u opts (getResolvedSignature tc c) = None"
    and "symbolOf u tc sf p = Inr s0"
    and "unalias tc s0 = Some s"
    and "declarations s = Some (d # ds)"
    and "decl_kind d \<in> {MethodDeclaration, FunctionDeclaration, FunctionExpression, MethodSignature}"
  shows "getUnwantedTags u tc opts sf p = Inr None"
proof -
  from assms(5,6) have "isFunctionOrMethod (declarations s)"
    by (auto simp: isFunctionOrMethod_def)
  with assms(1-4) show ?thesis by (simp add: getUnwantedTags_def)
qed

text \<open>
  In the example, with the tag \<^verbatim>\<open>Y\<close> configured: the signature of \<^verbatim>\<open>f\<close> has no such
  tag, the symbol has one, and the call of \<^verbatim>\<open>f\<close> gives no match.
\<close>

theorem call_target_function_aborts_witness:
  "getCallExpresion exampleFile [1, 0, 0] = Inr (Some [1, 0]) \<and>
   getSignatureUnwantedTags exampleUtils \<lparr>opt_tags = [''Y'']\<rparr>
     (getResolvedSignature exampleChecker [1, 0]) = None \<and>
   symbolOf exampleUtils exampleChecker exampleFile [1, 0, 0] = Inr (Some symF) \<and>
   unalias exampleChecker (Some symF) = Some symF \<and>
   declarations symF = Some [Decl FunctionDeclaration (Some (Decl SourceFile None 0)) 2] \<and>
   getSymbolUnwantedTags exampleUtils \<lparr>opt_tags = [''Y'']\<rparr> symF = Inr (Some ''all overloads'') \<and>
   getUnwantedTags exampleUtils exampleChecker \<lparr>opt_tags = [''Y'']\<rparr> exampleFile [1, 0, 0] =
     Inr None"
proof -
  have c: "getCallExpresion exampleFile [1, 0, 0] = Inr (Some [1, 0])"
    and s: "symbolOf exampleUtils exampleChecker exampleFile [1, 0, 0] = Inr (Some symF)"
    by (simp_all add: exampleFile_def ident_def exampleChecker_def exampleUtils_def resolver_defs)
  have g: "getSignatureUnwantedTags exampleUtils \<lparr>opt_tags = [''Y'']\<rparr>
     (getResolvedSignature exampleChecker [1, 0]) = None"
    by (simp add: exampleChecker_def getSignatureUnwantedTags_def)
  have a: "unalias exampleChecker (Some symF) = Some symF"
    by (simp add: unalias_def symF_def isSymbolFlagSet_def Alias_def)
  have d: "declarations symF = Some [Decl FunctionDeclaration (Some (Decl SourceFile None 0)) 2]"
    by (simp add: symF_def)
  have k: "decl_kind (Decl FunctionDeclaration (Some (Decl SourceFile None 0)) 2) \<in>
      {MethodDeclaration, FunctionDeclaration, FunctionExpression, MethodSignature}"
    by simp
  have t: "getSymbolUnwantedTags exampleUtils \<lparr>opt_tags = [''Y'']\<rparr> symF =
             Inr (Some ''all overloads'')"
    by (simp add: symF_def getSymbolUnwantedTags_def)
  from call_target_function_aborts[OF c g s a d k] c g s a d t show ?thesis by blast
qed

text \<open>
  As first stated, with "has a declaration that is a function or method", the claim fails
  on \<^verbatim>\<open>h()\<close> of the example: the symbol has two declarations, an interface and a
  function, the signature has no tag, and the tag of the symbol is matched.
\<close>

theorem merged_declaration_counterexample:
  "getCallExpresion exampleFile [4, 0, 0] = Inr (Some [4, 0]) \<and>
   getSignatureUnwantedTags exampleUtils exampleOptions
     (getResolvedSignature exampleChecker [4, 0]) = None \<and>
   symbolOf exampleUtils exampleChecker exampleFile [4, 0, 0] = Inr (Some symH) \<and>
   unalias exampleChecker (Some symH) = Some symH \<and>
   declarations symH =
     Some [Decl InterfaceDeclaration (Some (Decl SourceFile None 0)) 6,
           Decl FunctionDeclaration (Some (Decl SourceFile None 0)) 7] \<and>
   getUnwantedTags exampleUtils exampleChecker exampleOptions exampleFile [4, 0, 0] =
     Inr (Some ''merged'')"
  by (simp add: example_defs resolver_defs)

subsection \<open>Declaration sites\<close>

text \<open>
  Claim C3, amended. For an identifier with a parent, in a file whose root is a source
  file, \<open>isDeclaration\<close> returns true exactly at the declaration sites, the property
  signature being counted among the named entities.
\<close>

theorem isDeclaration_classification:
  assumes "kind sf = SourceFile" and "node_at sf p = Some n" and "p \<noteq> []"
  shows "isDeclaration u sf p =
           Inr (declarationSite (\<lambda>k. namedEntity k \<or> k = PropertySignature) u sf p)"
proof -
  from node_at_butlast[OF assms(2,3)] obtain m where m: "node_at sf (butlast p) = Some m"
    by blast
  have "kind m = PropertyAssignment \<Longrightarrow> butlast p \<noteq> []"
    using m assms(1) by (cases "butlast p") auto
  then show ?thesis
    using assms(3) m
    by (cases "kind m")
      (simp_all add: isDeclaration_def declarationSite_def namedEntity_def bindingNode_def
        fills_def)
qed

text \<open>In the example: the name of a property signature, and the usage of \<^verbatim>\<open>f\<close>.\<close>

theorem isDeclaration_classification_witness:
  "kind exampleFile = SourceFile \<and> node_at exampleFile [5, 1, 0] = Some (ident ''foo'') \<and>
   [5, 1, 0 :: nat] \<noteq> [] \<and>
   declarationSite (\<lambda>k. namedEntity k \<or> k = PropertySignature) exampleUtils exampleFile [5, 1, 0] \<and>
   isDeclaration exampleUtils exampleFile [5, 1, 0] = Inr True \<and>
   node_at exampleFile [1, 0, 0] = Some (ident ''f'') \<and>
   \<not> declarationSite (\<lambda>k. namedEntity k \<or> k = PropertySignature) exampleUtils exampleFile [1, 0, 0] \<and>
   isDeclaration exampleUtils exampleFile [1, 0, 0] = Inr False"
proof -
  have k: "kind exampleFile = SourceFile" by (simp add: exampleFile_def)
  have n1: "node_at exampleFile [5, 1, 0] = Some (ident ''foo'')"
    and n2: "node_at exampleFile [1, 0, 0] = Some (ident ''f'')"
    by (simp_all add: exampleFile_def)
  have d1: "declarationSite (\<lambda>k. namedEntity k \<or> k = PropertySignature) exampleUtils
              exampleFile [5, 1, 0]"
    and d2: "\<not> declarationSite (\<lambda>k. namedEntity k \<or> k = PropertySignature) exampleUtils
              exampleFile [1, 0, 0]"
    by (simp_all add: declarationSite_def namedEntity_def bindingNode_def exampleFile_def ident_def)
  from isDeclaration_classification[OF k n1, of exampleUtils] d1
  have i1: "isDeclaration exampleUtils exampleFile [5, 1, 0] = Inr True" by simp
  from isDeclaration_classification[OF k n2, of exampleUtils] d2
  have i2: "isDeclaration exampleUtils exampleFile [1, 0, 0] = Inr False" by simp
  from k n1 n2 d1 d2 i1 i2 show ?thesis by simp
qed

text \<open>
  As first stated, without the property signature, the claim fails on the two children of
  the property signature of the example: \<open>isDeclaration\<close> is true of both, and neither
  is a declaration site by the kinds of the claim.
\<close>

theorem property_signature_counterexample:
  "node_at exampleFile [5, 1] =
     Some (Node PropertySignature [] (Some 0) None None [ident ''foo'', ident ''init'']) \<and>
   isDeclaration exampleUtils exampleFile [5, 1, 0] = Inr True \<and>
   \<not> declarationSite namedEntity exampleUtils exampleFile [5, 1, 0] \<and>
   isDeclaration exampleUtils exampleFile [5, 1, 1] = Inr True \<and>
   \<not> declarationSite namedEntity exampleUtils exampleFile [5, 1, 1]"
  by (simp add: exampleFile_def ident_def exampleUtils_def isDeclaration_def parent_def fills_def
      declarationSite_def namedEntity_def bindingNode_def)

end
